theory Spec2Isabelle
  imports Complex_Main "HOL-Library.Multiset"
begin

section \<open>Data model\<close>

text \<open>
  The lattice is a two-dimensional numpy array. It is modelled by its rows; the
  source reads its dimension as \<open>lattice.shape[0]\<close>, the number of rows. Cells hold
  the integers 1 and -1 (random mode) or the floats 1.0 and -1.0 (deterministic
  mode); both are modelled as \<open>int\<close>, and every arithmetic result on them stays a
  small whole number.
\<close>

type_synonym lattice = "int list list"

datatype py_error =
  IndexError | ValueError | ZeroDivisionError | OverflowError | MemoryError | NameError

text \<open>\<open>lattice[i, j]\<close> for indices that are not negative; out of range raises.\<close>

definition cell :: "lattice \<Rightarrow> nat \<Rightarrow> nat \<Rightarrow> py_error + int" where
  "cell l i j =
     (if i < length l \<and> j < length (l ! i) then Inr (l ! i ! j) else Inl IndexError)"

text \<open>\<open>lattice[i, j] = v\<close>, used by the in-place update once the read has succeeded.\<close>

definition set_cell :: "lattice \<Rightarrow> nat \<Rightarrow> nat \<Rightarrow> int \<Rightarrow> lattice" where
  "set_cell l i j v = l[i := (l ! i)[j := v]]"

text \<open>
  \<open>(k + d) % N\<close> on Python integers: the result of \<open>%\<close> has the sign of the
  divisor, so \<open>(0 - 1) % N = N - 1\<close>.
\<close>

definition wrap :: "nat \<Rightarrow> int \<Rightarrow> nat" where
  "wrap N k = nat (k mod int N)"

text \<open>
  The sum of the four toroidal neighbours, as both \<open>calculate_energy\<close> and
  \<open>metropolis_step\<close> write it:
  \<open>lattice[(i+1) % N, j] + lattice[(i-1) % N, j] + lattice[i, (j+1) % N] + lattice[i, (j-1) % N]\<close>.
\<close>

definition neighbors :: "lattice \<Rightarrow> nat \<Rightarrow> nat \<Rightarrow> nat \<Rightarrow> py_error + int" where
  "neighbors l N i j =
     (case cell l (wrap N (int i + 1)) j of Inl e \<Rightarrow> Inl e | Inr a \<Rightarrow>
     (case cell l (wrap N (int i - 1)) j of Inl e \<Rightarrow> Inl e | Inr b \<Rightarrow>
     (case cell l i (wrap N (int j + 1)) of Inl e \<Rightarrow> Inl e | Inr c \<Rightarrow>
     (case cell l i (wrap N (int j - 1)) of Inl e \<Rightarrow> Inl e | Inr d \<Rightarrow>
      Inr (a + b + c + d)))))"

section \<open>Energy evaluator\<close>

text \<open>The body of the inner loop of \<open>calculate_energy\<close>: \<open>energy += -spin * neighbors\<close>.\<close>

definition energy_site :: "lattice \<Rightarrow> nat \<Rightarrow> nat \<Rightarrow> nat \<Rightarrow> py_error + int \<Rightarrow> py_error + int" where
  "energy_site l N i j acc =
     (case acc of Inl e \<Rightarrow> Inl e | Inr energy \<Rightarrow>
     (case cell l i j of Inl e \<Rightarrow> Inl e | Inr spin \<Rightarrow>
     (case neighbors l N i j of Inl e \<Rightarrow> Inl e | Inr nb \<Rightarrow>
      Inr (energy + - spin * nb))))"

text \<open>\<open>for j in range(N)\<close> inside \<open>for i in range(N)\<close>, then \<open>energy / 2.0\<close>.\<close>

definition energy_row :: "lattice \<Rightarrow> nat \<Rightarrow> nat \<Rightarrow> py_error + int \<Rightarrow> py_error + int" where
  "energy_row l N i acc = fold (energy_site l N i) [0..<N] acc"

definition calculate_energy :: "lattice \<Rightarrow> py_error + real" where
  "calculate_energy l =
     (let N = length l in
      case fold (energy_row l N) [0..<N] (Inr 0) of
        Inl e \<Rightarrow> Inl e
      | Inr energy \<Rightarrow> Inr (real_of_int energy / 2))"

section \<open>Floating-point values\<close>

text \<open>
  A float64 as Python and numpy hold it: a finite value (\<open>Finite 0\<close> is the
  positive zero), the negative zero, the two infinities, or nan. The ratio and
  the temperatures are such values. numpy does not raise in float arithmetic:
  it returns an infinity or nan and records a warning.
\<close>

datatype fval = Finite real | NegZero | PosInf | NegInf | NaN

datatype fp_warning = DivideByZero | InvalidValue | Overflow

section \<open>The Python and numpy runtime\<close>

text \<open>
  What the source calls and the repository does not define is a parameter of
  the model. The generator is numpy's process-wide one: its state is a value of
  a type \<open>'g\<close>, and \<open>np.random.randint(0, N, size=2)\<close>, \<open>np.random.rand()\<close> and
  \<open>np.random.shuffle(spins)\<close> each return the draw and the next state.
  The rounded float64 operations are parameters too: \<open>py_mul\<close> is Python's
  product of an integer and a float (the integer is converted first, which
  raises when it is too large), \<open>fl_div\<close> is numpy's quotient of an integer by a
  divisor that is not a zero, and \<open>fl_exp\<close> is \<open>np.exp\<close> of a finite argument or of
  the negative zero; the last two return the warnings they record.
  \<open>list_capacity\<close> is the length of the longest list the interpreter can
  allocate.
\<close>

record 'g runtime =
  randint :: "'g \<Rightarrow> nat \<Rightarrow> (nat \<times> nat) \<times> 'g"
  rand :: "'g \<Rightarrow> real \<times> 'g"
  shuffle :: "'g \<Rightarrow> int list \<Rightarrow> int list \<times> 'g"
  py_mul :: "int \<Rightarrow> fval \<Rightarrow> py_error + fval"
  fl_div :: "int \<Rightarrow> fval \<Rightarrow> fval \<times> fp_warning list"
  fl_exp :: "fval \<Rightarrow> fval \<times> fp_warning list"
  list_capacity :: int

text \<open>numpy's contract for the three operations of the generator.\<close>

definition randint_in_range :: "'g runtime \<Rightarrow> bool" where
  "randint_in_range np =
     (\<forall>g N. 0 < N \<longrightarrow> fst (fst (randint np g N)) < N \<and> snd (fst (randint np g N)) < N)"

definition rand_in_unit :: "'g runtime \<Rightarrow> bool" where
  "rand_in_unit np = (\<forall>g. 0 \<le> fst (rand np g) \<and> fst (rand np g) < 1)"

definition shuffle_permutes :: "'g runtime \<Rightarrow> bool" where
  "shuffle_permutes np = (\<forall>g xs. mset (fst (shuffle np g xs)) = mset xs)"

text \<open>A ratio between 0 and 1, as a float; the negative zero compares equal to 0.\<close>

definition unit_ratio :: "fval \<Rightarrow> bool" where
  "unit_ratio x = (case x of Finite r \<Rightarrow> 0 \<le> r \<and> r \<le> 1 | NegZero \<Rightarrow> True | _ \<Rightarrow> False)"

text \<open>
  What rounding to nearest gives for the product of an integer below \<open>2^53\<close>,
  which float64 holds exactly, and a ratio between 0 and 1: the exact product
  lies between 0 and the integer, both of them floats, and so does the rounded
  one.
\<close>

definition mul_rounds_within :: "'g runtime \<Rightarrow> bool" where
  "mul_rounds_within np =
     (\<forall>n x. 0 \<le> n \<longrightarrow> n < 2 ^ 53 \<longrightarrow> unit_ratio x \<longrightarrow>
        (case py_mul np n x of
           Inr (Finite p) \<Rightarrow> 0 \<le> p \<and> p \<le> real_of_int n
         | Inr NegZero \<Rightarrow> True
         | _ \<Rightarrow> False))"

text \<open>
  A small concrete runtime, used to run the model: the state of its generator
  is a counter, and its arithmetic is exact.
\<close>

fun exact_mul :: "int \<Rightarrow> fval \<Rightarrow> fval" where
  "exact_mul n (Finite r) = Finite (real_of_int n * r)"
| "exact_mul n NegZero = (if 0 \<le> n then NegZero else Finite 0)"
| "exact_mul n PosInf = (if n = 0 then NaN else if 0 < n then PosInf else NegInf)"
| "exact_mul n NegInf = (if n = 0 then NaN else if 0 < n then NegInf else PosInf)"
| "exact_mul n NaN = NaN"

fun exact_div :: "int \<Rightarrow> fval \<Rightarrow> fval" where
  "exact_div x (Finite t) = Finite (real_of_int x / t)"
| "exact_div x NegZero = NaN"
| "exact_div x PosInf = (if x < 0 then NegZero else Finite 0)"
| "exact_div x NegInf = (if 0 < x then NegZero else Finite 0)"
| "exact_div x NaN = NaN"

fun exact_exp :: "fval \<Rightarrow> fval" where
  "exact_exp (Finite x) = Finite (exp x)"
| "exact_exp NegZero = Finite 1"
| "exact_exp PosInf = PosInf"
| "exact_exp NegInf = Finite 0"
| "exact_exp NaN = NaN"

definition counter_rng :: "nat runtime" where
  "counter_rng =
     \<lparr> randint = (\<lambda>g N. ((g mod N, (g div N) mod N), g + 1)),
       rand = (\<lambda>g. (1 / 2, g + 1)),
       shuffle = (\<lambda>g xs. (rev xs, g + 1)),
       py_mul = (\<lambda>n x. Inr (exact_mul n x)),
       fl_div = (\<lambda>x t. (exact_div x t, [])),
       fl_exp = (\<lambda>q. (exact_exp q, [])),
       list_capacity = 2 ^ 32 \<rparr>"

section \<open>Lattice initializer\<close>

text \<open>
  Python's \<open>int(x)\<close> on a float: truncation towards zero; an infinity raises
  OverflowError and nan raises ValueError.
\<close>

definition py_int :: "fval \<Rightarrow> py_error + int" where
  "py_int x =
     (case x of
        Finite r \<Rightarrow> Inr (if 0 \<le> r then \<lfloor>r\<rfloor> else \<lceil>r\<rceil>)
      | NegZero \<Rightarrow> Inr 0
      | PosInf \<Rightarrow> Inl OverflowError
      | NegInf \<Rightarrow> Inl OverflowError
      | NaN \<Rightarrow> Inl ValueError)"

text \<open>
  \<open>[v] * k\<close>: empty when \<open>k\<close> is not positive; a count that does not fit an
  index (\<open>2^63\<close> and above) raises OverflowError, one beyond what can be
  allocated raises MemoryError.
\<close>

definition py_repeat :: "'g runtime \<Rightarrow> int \<Rightarrow> int \<Rightarrow> py_error + int list" where
  "py_repeat np v k =
     (if k \<le> 0 then Inr []
      else if 2 ^ 63 \<le> k then Inl OverflowError
      else if list_capacity np < k then Inl MemoryError
      else Inr (replicate (nat k) v))"

text \<open>\<open>[1] * num_blue + [-1] * num_red\<close>, left to right.\<close>

definition py_spins :: "'g runtime \<Rightarrow> int \<Rightarrow> int \<Rightarrow> py_error + int list" where
  "py_spins np num_blue num_red =
     (case py_repeat np 1 num_blue of Inl e \<Rightarrow> Inl e | Inr blue \<Rightarrow>
     (case py_repeat np (- 1) num_red of Inl e \<Rightarrow> Inl e | Inr red \<Rightarrow>
      if list_capacity np < int (length blue + length red) then Inl MemoryError
      else Inr (blue @ red)))"

text \<open>
  \<open>spins.reshape((N, N))\<close>: a negative dimension (two of them, so never the one
  inferred dimension numpy allows) or a size other than \<open>N * N\<close> raises ValueError.
\<close>

definition reshape :: "int list \<Rightarrow> int \<Rightarrow> py_error + lattice" where
  "reshape xs N =
     (if N < 0 \<or> int (length xs) \<noteq> N * N then Inl ValueError
      else Inr (map (\<lambda>i. take (nat N) (drop (i * nat N) xs)) [0..<nat N]))"

text \<open>
  \<open>lattice[:, :c] = -1\<close> on one row, for a bound \<open>c\<close> that is not negative: the
  first \<open>c\<close> entries (all of them when the row is shorter) become -1.
\<close>

definition assign_left :: "nat \<Rightarrow> int list \<Rightarrow> int list" where
  "assign_left c row = replicate (min c (length row)) (- 1) @ drop c row"

definition initialize_lattice ::
  "'g runtime \<Rightarrow> int \<Rightarrow> fval \<Rightarrow> bool \<Rightarrow> 'g \<Rightarrow> py_error + (lattice \<times> 'g)" where
  "initialize_lattice np N ratio randomize g =
     (if randomize then
        (let num_spins = N * N in
         case py_mul np num_spins ratio of Inl e \<Rightarrow> Inl e | Inr x \<Rightarrow>
        (case py_int x of Inl e \<Rightarrow> Inl e | Inr num_blue \<Rightarrow>
        (let num_red = num_spins - num_blue in
         case py_spins np num_blue num_red of Inl e \<Rightarrow> Inl e | Inr spins \<Rightarrow>
        (let shuffled = shuffle np g spins in
         case reshape (fst shuffled) N of
           Inl e \<Rightarrow> Inl e
         | Inr lattice \<Rightarrow> Inr (lattice, snd shuffled)))))
      else if N < 0 then Inl ValueError
      else Inr (map (assign_left (nat (N div 2))) (replicate (nat N) (replicate (nat N) 1)), g))"

section \<open>Metropolis updater\<close>

text \<open>
  \<open>-delta_E / temperature\<close>: the dividend is a whole number. A zero divisor
  gives an infinity whose sign is the product of the two signs, with a
  divide-by-zero warning, and nan with an invalid-value warning when the
  dividend is 0 as well; every other divisor is left to the runtime.
\<close>

definition np_divide :: "'g runtime \<Rightarrow> int \<Rightarrow> fval \<Rightarrow> fval \<times> fp_warning list" where
  "np_divide np x temperature =
     (if temperature = Finite 0 \<or> temperature = NegZero then
        (if x = 0 then (NaN, [InvalidValue])
         else if (0 < x) = (temperature = Finite 0) then (PosInf, [DivideByZero])
         else (NegInf, [DivideByZero]))
      else fl_div np x temperature)"

text \<open>
  \<open>np.exp\<close>: exact and silent at the infinities and at nan, left to the
  runtime elsewhere (where it may underflow to 0 or overflow to infinity).
\<close>

definition np_exp :: "'g runtime \<Rightarrow> fval \<Rightarrow> fval \<times> fp_warning list" where
  "np_exp np q =
     (case q of
        PosInf \<Rightarrow> (PosInf, [])
      | NegInf \<Rightarrow> (Finite 0, [])
      | NaN \<Rightarrow> (NaN, [])
      | _ \<Rightarrow> fl_exp np q)"

text \<open>\<open>u < v\<close> for a finite \<open>u\<close>: every comparison with nan is false.\<close>

fun np_less :: "real \<Rightarrow> fval \<Rightarrow> bool" where
  "np_less u (Finite x) = (u < x)"
| "np_less u NegZero = (u < 0)"
| "np_less u PosInf = True"
| "np_less u NegInf = False"
| "np_less u NaN = False"

text \<open>
  Lines 69 to 72 of the source: \<open>spin = lattice[i, j]\<close>, the neighbour sum and
  \<open>delta_E = 2 * spin * neighbors\<close>.
\<close>

definition delta_E :: "lattice \<Rightarrow> nat \<Rightarrow> nat \<Rightarrow> py_error + int" where
  "delta_E l i j =
     (case cell l i j of Inl e \<Rightarrow> Inl e | Inr spin \<Rightarrow>
     (case neighbors l (length l) i j of Inl e \<Rightarrow> Inl e | Inr nb \<Rightarrow>
      Inr (2 * spin * nb)))"

text \<open>
  One pass of the loop body of \<open>metropolis_step\<close>, on the lattice, the
  generator and the warnings recorded so far. Python's \<open>or\<close> evaluates its
  right operand, and with it the uniform draw, the division and the
  exponential, only when \<open>delta_E < 0\<close> is false. \<open>lattice[i, j] *= -1\<close> writes
  one cell.
\<close>

definition trial ::
  "'g runtime \<Rightarrow> fval \<Rightarrow> lattice \<times> 'g \<times> fp_warning list \<Rightarrow>
     py_error + (lattice \<times> 'g \<times> fp_warning list)" where
  "trial np temperature s =
     (case s of (l, g, w) \<Rightarrow>
        (let N = length l;
             pick = randint np g N;
             i = fst (fst pick);
             j = snd (fst pick)
         in case delta_E l i j of
              Inl e \<Rightarrow> Inl e
            | Inr dE \<Rightarrow>
                if dE < 0 then Inr (set_cell l i j (l ! i ! j * - 1), snd pick, w)
                else
                  (let draw = rand np (snd pick);
                       q = np_divide np (- dE) temperature;
                       p = np_exp np (fst q)
                   in if np_less (fst draw) (fst p)
                      then Inr (set_cell l i j (l ! i ! j * - 1), snd draw, w @ snd q @ snd p)
                      else Inr (l, snd draw, w @ snd q @ snd p))))"

text \<open>\<open>for _ in range(N**2)\<close>: the body, a given number of times.\<close>

fun trials ::
  "'g runtime \<Rightarrow> fval \<Rightarrow> nat \<Rightarrow> lattice \<times> 'g \<times> fp_warning list \<Rightarrow>
     py_error + (lattice \<times> 'g \<times> fp_warning list)" where
  "trials np temperature 0 s = Inr s"
| "trials np temperature (Suc k) s =
     (case trial np temperature s of
        Inl e \<Rightarrow> Inl e
      | Inr s' \<Rightarrow> trials np temperature k s')"

definition metropolis_step ::
  "'g runtime \<Rightarrow> fval \<Rightarrow> lattice \<times> 'g \<times> fp_warning list \<Rightarrow>
     py_error + (lattice \<times> 'g \<times> fp_warning list)" where
  "metropolis_step np temperature s = trials np temperature (length (fst s) ^ 2) s"

text \<open>Several sweeps in a row, one per temperature of the list.\<close>

fun sweeps ::
  "'g runtime \<Rightarrow> fval list \<Rightarrow> lattice \<times> 'g \<times> fp_warning list \<Rightarrow>
     py_error + (lattice \<times> 'g \<times> fp_warning list)" where
  "sweeps np [] s = Inr s"
| "sweeps np (t # ts) s =
     (case metropolis_step np t s of
        Inl e \<Rightarrow> Inl e
      | Inr s' \<Rightarrow> sweeps np ts s')"

section \<open>The update rule as the specification words it\<close>

text \<open>
  The specification's trial, written from its text and not from the source:
  pick a cell; \<open>delta_E\<close> is twice the spin times the sum of the four toroidal
  neighbours; accept when \<open>delta_E < 0\<close>, otherwise draw \<open>u\<close> and accept exactly
  when \<open>u < exp (- delta_E / T)\<close>, the quotient and the exponential being the
  runtime's; on acceptance negate that one cell.
\<close>

definition spec_neighbor_sum :: "lattice \<Rightarrow> nat \<Rightarrow> nat \<Rightarrow> nat \<Rightarrow> int" where
  "spec_neighbor_sum l N i j =
     l ! ((i + 1) mod N) ! j + l ! ((i + N - 1) mod N) ! j +
     l ! i ! ((j + 1) mod N) + l ! i ! ((j + N - 1) mod N)"

definition spec_delta_E :: "lattice \<Rightarrow> nat \<Rightarrow> nat \<Rightarrow> nat \<Rightarrow> int" where
  "spec_delta_E l N i j = 2 * (l ! i ! j) * spec_neighbor_sum l N i j"

definition spec_negate :: "lattice \<Rightarrow> nat \<Rightarrow> nat \<Rightarrow> lattice" where
  "spec_negate l i j = l[i := (l ! i)[j := - (l ! i ! j)]]"

definition spec_exp_quotient :: "'g runtime \<Rightarrow> int \<Rightarrow> fval \<Rightarrow> fval" where
  "spec_exp_quotient np d T = fst (np_exp np (fst (np_divide np (- d) T)))"

definition spec_trial :: "'g runtime \<Rightarrow> fval \<Rightarrow> nat \<Rightarrow> lattice \<times> 'g \<Rightarrow> lattice \<times> 'g" where
  "spec_trial np T N s =
     (case s of (l, g) \<Rightarrow>
        (let pick = randint np g N;
             i = fst (fst pick);
             j = snd (fst pick);
             d = spec_delta_E l N i j
         in if d < 0 then (spec_negate l i j, snd pick)
            else (let draw = rand np (snd pick)
                  in if np_less (fst draw) (spec_exp_quotient np d T)
                     then (spec_negate l i j, snd draw)
                     else (l, snd draw))))"

text \<open>The lattice invariant of the specification: an N by N grid of +1 and -1.\<close>

definition square_lattice :: "nat \<Rightarrow> lattice \<Rightarrow> bool" where
  "square_lattice N l = (length l = N \<and> list_all (\<lambda>row. length row = N) l)"

definition spins_ok :: "lattice \<Rightarrow> bool" where
  "spins_ok l = list_all (list_all (\<lambda>v. v = 1 \<or> v = - 1)) l"

text \<open>
  The neighbour sum of a grid given as a function of its two indices; the
  energy of a lattice is a quadratic form in it.
\<close>

definition site_nb :: "nat \<Rightarrow> (nat \<Rightarrow> nat \<Rightarrow> int) \<Rightarrow> nat \<Rightarrow> nat \<Rightarrow> int" where
  "site_nb N F i j =
     F ((i + 1) mod N) j + F ((i + N - 1) mod N) j + F i ((j + 1) mod N) + F i ((j + N - 1) mod N)"

section \<open>Simulation orchestrator\<close>

text \<open>
  The orchestrator holds references to arrays that \<open>metropolis_step\<close> mutates in
  place. The store maps an address to the array it holds; \<open>next_addr\<close> is the
  first address never allocated.
\<close>

record 'g world =
  heap :: "nat \<Rightarrow> lattice"
  next_addr :: nat
  gen :: 'g
  warnings :: "fp_warning list"

definition new_array :: "lattice \<Rightarrow> 'g world \<Rightarrow> nat \<times> 'g world" where
  "new_array v s =
     (next_addr s, s\<lparr>heap := (heap s)(next_addr s := v), next_addr := Suc (next_addr s)\<rparr>)"

text \<open>\<open>initialize_lattice\<close> returns a fresh array.\<close>

definition initialize_lattice_at ::
  "'g runtime \<Rightarrow> int \<Rightarrow> fval \<Rightarrow> bool \<Rightarrow> 'g world \<Rightarrow> py_error + (nat \<times> 'g world)" where
  "initialize_lattice_at np N ratio randomize s =
     (case initialize_lattice np N ratio randomize (gen s) of
        Inl e \<Rightarrow> Inl e
      | Inr r \<Rightarrow> Inr (new_array (fst r) (s\<lparr>gen := snd r\<rparr>)))"

text \<open>\<open>metropolis_step\<close> writes into the array it is given and returns that same array.\<close>

definition metropolis_step_at ::
  "'g runtime \<Rightarrow> nat \<Rightarrow> fval \<Rightarrow> 'g world \<Rightarrow> py_error + (nat \<times> 'g world)" where
  "metropolis_step_at np a temperature s =
     (case metropolis_step np temperature (heap s a, gen s, warnings s) of
        Inl e \<Rightarrow> Inl e
      | Inr r \<Rightarrow>
          Inr (a, s\<lparr>heap := (heap s)(a := fst r), gen := fst (snd r), warnings := snd (snd r)\<rparr>))"

definition calculate_energy_at :: "nat \<Rightarrow> 'g world \<Rightarrow> py_error + (real \<times> 'g world)" where
  "calculate_energy_at a s =
     (case calculate_energy (heap s a) of Inl e \<Rightarrow> Inl e | Inr en \<Rightarrow> Inr (en, s))"

text \<open>\<open>np.copy(lattice)\<close>: a new array with the same contents.\<close>

definition np_copy :: "nat \<Rightarrow> 'g world \<Rightarrow> nat \<times> 'g world" where
  "np_copy a s = new_array (heap s a) s"

text \<open>
  The locals of one temperature run: the reference \<open>lattice\<close>, the list
  \<open>energy\<close> and the list \<open>lattice_states\<close> of references.
\<close>

record run =
  lattice_ref :: nat
  energy :: "real list"
  lattice_states :: "nat list"

text \<open>
  Lines 100 to 102, the recording statements of the step loop: the sweep in
  place, the energy appended, a copy of the lattice appended.
\<close>

definition record_step ::
  "'g runtime \<Rightarrow> fval \<Rightarrow> run \<times> 'g world \<Rightarrow> py_error + (run \<times> 'g world)" where
  "record_step np temperature rs =
     (case rs of (r, s) \<Rightarrow>
     (case metropolis_step_at np (lattice_ref r) temperature s of Inl e \<Rightarrow> Inl e | Inr (a, s1) \<Rightarrow>
     (case calculate_energy_at a s1 of Inl e \<Rightarrow> Inl e | Inr (en, s2) \<Rightarrow>
        (let snap = np_copy a s2
         in Inr (\<lparr>lattice_ref = a, energy = energy r @ [en],
                  lattice_states = lattice_states r @ [fst snap]\<rparr>, snd snap)))))"

text \<open>
  The whole body of the step loop. After the recording statements comes
  \<open>if step % output_interval == 0\<close>, which raises ZeroDivisionError when the
  interval is 0, and then the call \<open>clear_output(wait=True)\<close>. The source
  imports \<open>HTML\<close> and \<open>display\<close> from \<open>IPython.display\<close> and nothing else of that
  module, and defines no \<open>clear_output\<close>: the name is unbound and the call
  raises NameError, so \<open>plot_lattice\<close> is never reached.
\<close>

definition step_body ::
  "'g runtime \<Rightarrow> fval \<Rightarrow> int \<Rightarrow> nat \<Rightarrow>
     py_error + (run \<times> 'g world) \<Rightarrow> py_error + (run \<times> 'g world)" where
  "step_body np temperature output_interval step acc =
     (case acc of Inl e \<Rightarrow> Inl e | Inr rs \<Rightarrow>
     (case record_step np temperature rs of Inl e \<Rightarrow> Inl e | Inr rs' \<Rightarrow>
      if output_interval = 0 then Inl ZeroDivisionError
      else if int step mod output_interval = 0 then Inl NameError
      else Inr rs'))"

text \<open>The body of \<open>for temperature in temperatures\<close> up to the end of the step loop.\<close>

definition run_temperature ::
  "'g runtime \<Rightarrow> int \<Rightarrow> int \<Rightarrow> int \<Rightarrow> fval \<Rightarrow> fval \<Rightarrow> 'g world \<Rightarrow>
     py_error + (run \<times> 'g world)" where
  "run_temperature np N steps output_interval ratio temperature s =
     (case initialize_lattice_at np N ratio True s of
        Inl e \<Rightarrow> Inl e
      | Inr (a, s1) \<Rightarrow>
          fold (step_body np temperature output_interval) [0..<nat steps]
            (Inr (\<lparr>lattice_ref = a, energy = [], lattice_states = []\<rparr>, s1)))"

text \<open>
  The three dictionaries the orchestrator returns, keyed by temperature. The
  two zeros are equal and hash alike, so they are one key; nan is taken as one
  key as well (as when the list repeats one nan object).
\<close>

record results =
  final_states :: "fval \<rightharpoonup> nat"
  animations :: "fval \<rightharpoonup> nat list"
  energies :: "fval \<rightharpoonup> real list"

definition dict_key :: "fval \<Rightarrow> fval" where
  "dict_key x = (if x = NegZero then Finite 0 else x)"

definition temperature_body ::
  "'g runtime \<Rightarrow> int \<Rightarrow> int \<Rightarrow> int \<Rightarrow> fval \<Rightarrow> fval \<Rightarrow>
     py_error + (results \<times> 'g world) \<Rightarrow> py_error + (results \<times> 'g world)" where
  "temperature_body np N steps output_interval ratio temperature acc =
     (case acc of Inl e \<Rightarrow> Inl e | Inr (res, s) \<Rightarrow>
     (case run_temperature np N steps output_interval ratio temperature s of
        Inl e \<Rightarrow> Inl e
      | Inr (r, s') \<Rightarrow>
          Inr (\<lparr>final_states = (final_states res)(dict_key temperature \<mapsto> lattice_ref r),
                animations = (animations res)(dict_key temperature \<mapsto> lattice_states r),
                energies = (energies res)(dict_key temperature \<mapsto> energy r)\<rparr>, s')))"

definition simulate_phase_separation ::
  "'g runtime \<Rightarrow> int \<Rightarrow> fval list \<Rightarrow> int \<Rightarrow> int \<Rightarrow> fval \<Rightarrow> 'g world \<Rightarrow>
     py_error + (results \<times> 'g world)" where
  "simulate_phase_separation np N temperatures steps output_interval ratio s =
     fold (temperature_body np N steps output_interval ratio) temperatures
       (Inr (\<lparr>final_states = Map.empty, animations = Map.empty, energies = Map.empty\<rparr>, s))"

text \<open>The store before any allocation, with the counter generator at 0.\<close>

definition empty_world :: "nat world" where
  "empty_world = \<lparr>heap = (\<lambda>_. []), next_addr = 0, gen = 0, warnings = []\<rparr>"

text \<open>
  What the recording statements keep true of the locals of a temperature run:
  every recorded snapshot lives at an address allocated after the live
  lattice, and the evaluator applied to it returns the energy recorded at the
  same index. \<open>base\<close> is the first address the run allocated.
\<close>

definition run_inv :: "nat \<Rightarrow> 'g world \<Rightarrow> run \<Rightarrow> bool" where
  "run_inv base s r =
     (base \<le> lattice_ref r \<and> lattice_ref r < next_addr s \<and>
      length (energy r) = length (lattice_states r) \<and>
      (\<forall>k < length (lattice_states r).
         lattice_ref r < lattice_states r ! k \<and> lattice_states r ! k < next_addr s \<and>
         calculate_energy (heap s (lattice_states r ! k)) = Inr (energy r ! k)))"

section \<open>The energy evaluator on a square lattice\<close>

lemma square_latticeD:
  "square_lattice N l \<Longrightarrow> i < N \<Longrightarrow> length l = N \<and> length (l ! i) = N"
  by (simp add: square_lattice_def list_all_length)

lemma wrap_succ: "0 < N \<Longrightarrow> wrap N (int i + 1) = (i + 1) mod N"
  by (simp add: wrap_def nat_mod_distrib nat_add_distrib)

lemma wrap_pred: "0 < N \<Longrightarrow> i < N \<Longrightarrow> wrap N (int i - 1) = (i + N - 1) mod N"
proof -
  assume a: "0 < N" "i < N"
  have "(int i - 1) mod int N = (int i - 1 + int N) mod int N" by simp
  also have "int i - 1 + int N = int (i + N - 1)" using a by linarith
  finally have "(int i - 1) mod int N = int ((i + N - 1) mod N)"
    by (simp add: zmod_int)
  then show ?thesis by (simp add: wrap_def)
qed

lemma neighbors_square:
  assumes "square_lattice N l" "i < N" "j < N"
  shows "neighbors l N i j = Inr (spec_neighbor_sum l N i j)"
proof -
  have N: "0 < N" using assms by simp
  have len: "length l = N" "\<And>k. k < N \<Longrightarrow> length (l ! k) = N"
    using assms(1) by (simp_all add: square_lattice_def list_all_length)
  have m: "(i + 1) mod N < N" "(i + N - 1) mod N < N" "(j + 1) mod N < N" "(j + N - 1) mod N < N"
    using N by simp_all
  show ?thesis
    using assms(2,3) N m len
    by (simp add: neighbors_def wrap_succ wrap_pred cell_def spec_neighbor_sum_def)
qed

lemma fold_acc_sum:
  assumes "\<And>x acc. x \<in> set xs \<Longrightarrow> f x (Inr acc) = Inr (acc + h x)"
  shows "fold f xs (Inr a) = Inr (a + sum_list (map h xs))"
  using assms by (induction xs arbitrary: a) (simp_all add: add.assoc)

lemma energy_row_square:
  assumes "square_lattice N l" "i < N"
  shows "energy_row l N i (Inr a) =
         Inr (a + (\<Sum>j<N. - (l ! i ! j) * spec_neighbor_sum l N i j))"
proof -
  have len: "length l = N" "length (l ! i) = N"
    using assms by (simp_all add: square_lattice_def list_all_length)
  have "fold (energy_site l N i) [0..<N] (Inr a) =
        Inr (a + sum_list (map (\<lambda>j. - (l ! i ! j) * spec_neighbor_sum l N i j) [0..<N]))"
    by (rule fold_acc_sum)
       (simp add: energy_site_def cell_def len assms neighbors_square)
  then show ?thesis
    by (simp add: energy_row_def interv_sum_list_conv_sum_set_nat atLeast0LessThan)
qed

lemma calculate_energy_square:
  assumes "square_lattice N l"
  shows "calculate_energy l =
         Inr (real_of_int (\<Sum>i<N. \<Sum>j<N. - (l ! i ! j) * spec_neighbor_sum l N i j) / 2)"
proof -
  have len: "length l = N" using assms by (simp add: square_lattice_def)
  have "fold (energy_row l N) [0..<N] (Inr 0) =
        Inr (0 + sum_list (map (\<lambda>i. \<Sum>j<N. - (l ! i ! j) * spec_neighbor_sum l N i j) [0..<N]))"
    by (rule fold_acc_sum) (simp add: energy_row_square assms)
  then show ?thesis
    by (simp add: calculate_energy_def len interv_sum_list_conv_sum_set_nat atLeast0LessThan)
qed

section \<open>Energy of the uniform lattice\<close>

lemma square_replicate: "square_lattice N (replicate N (replicate N v))"
  by (simp add: square_lattice_def list_all_length)

text \<open>
  Claim C3. The energy evaluator, on the N by N lattice whose cells are all +1,
  returns exactly \<open>-2 * N\<^sup>2\<close>: every cell adds \<open>-4\<close> through its four toroidal
  neighbours, and the total is halved.
\<close>

theorem energy_all_positive:
  "calculate_energy (replicate N (replicate N 1)) = Inr (- 2 * (real N)\<^sup>2)"
proof -
  let ?l = "replicate N (replicate N (1::int))"
  have nb: "spec_neighbor_sum ?l N i j = 4" if "i < N" "j < N" for i j
  proof -
    have "0 < N" using that by simp
    then have "(i + 1) mod N < N" "(i + N - 1) mod N < N" "(j + 1) mod N < N" "(j + N - 1) mod N < N"
      by simp_all
    then show ?thesis using that by (simp add: spec_neighbor_sum_def)
  qed
  have "(\<Sum>i<N. \<Sum>j<N. - (?l ! i ! j) * spec_neighbor_sum ?l N i j) = (\<Sum>i<N. \<Sum>j<N. - 4)"
    by (intro sum.cong refl) (simp add: nb)
  also have "\<dots> = - 4 * int N * int N" by simp
  finally have "calculate_energy ?l = Inr (real_of_int (- 4 * int N * int N) / 2)"
    using calculate_energy_square [OF square_replicate, of N 1] by simp
  then show ?thesis by (simp add: power2_eq_square)
qed

section \<open>The concrete runtime meets the contracts\<close>

lemma counter_rng_randint: "randint_in_range counter_rng"
  by (simp add: randint_in_range_def counter_rng_def)

lemma counter_rng_rand: "rand_in_unit counter_rng"
  by (simp add: rand_in_unit_def counter_rng_def)

lemma counter_rng_shuffle: "shuffle_permutes counter_rng"
  by (simp add: shuffle_permutes_def counter_rng_def)

lemma counter_rng_mul: "mul_rounds_within counter_rng"
proof -
  have "0 \<le> real_of_int n * r \<and> real_of_int n * r \<le> real_of_int n"
    if "0 \<le> n" "0 \<le> r" "r \<le> 1" for n :: int and r :: real
    using that by (simp add: mult_left_le)
  then show ?thesis
    by (auto simp: mul_rounds_within_def counter_rng_def unit_ratio_def split: fval.splits)
qed

section \<open>Lattice initializer: deterministic mode\<close>

lemma assign_left_ones:
  "c \<le> n \<Longrightarrow> assign_left c (replicate n 1) = map (\<lambda>j. if j < c then - 1 else 1) [0..<n]"
  by (rule nth_equalityI) (auto simp: assign_left_def nth_append)

lemma initialize_deterministic:
  assumes "0 \<le> N"
  shows "initialize_lattice np N ratio False g =
         Inr (map (\<lambda>i. map (\<lambda>j. if int j < N div 2 then - 1 else 1) [0..<nat N]) [0..<nat N], g)"
proof -
  have c: "nat (N div 2) \<le> nat N" using assms by simp
  have lt: "(j < nat (N div 2)) = (int j < N div 2)" for j using assms by linarith
  have "map (assign_left (nat (N div 2))) (replicate (nat N) (replicate (nat N) 1)) =
        map (\<lambda>i. map (\<lambda>j. if int j < N div 2 then - 1 else 1) [0..<nat N]) [0..<nat N]"
    by (rule nth_equalityI) (simp_all add: assign_left_ones [OF c] lt)
  then show ?thesis using assms by (simp add: initialize_lattice_def)
qed

text \<open>
  Claim C9. For every N of at least 1, deterministic mode returns, whatever the
  ratio and the generator, the N by N grid whose cell in column \<open>j\<close> is -1 when
  \<open>j < N div 2\<close> and +1 otherwise, and leaves the generator untouched. For
  N = 2 the grid is \<open>[[-1, 1], [-1, 1]]\<close>.
\<close>

theorem deterministic_split:
  assumes "1 \<le> N"
  shows "initialize_lattice np N ratio False g =
         Inr (map (\<lambda>i. map (\<lambda>j. if int j < N div 2 then - 1 else 1) [0..<nat N]) [0..<nat N], g)"
  using assms by (intro initialize_deterministic) simp

theorem deterministic_split_witness:
  "(1::int) \<le> 2 \<and>
   initialize_lattice counter_rng 2 (Finite (1 / 2)) False 0 = Inr ([[- 1, 1], [- 1, 1]], 0)"
  using deterministic_split [of 2 counter_rng "Finite (1 / 2)" 0] by (simp add: upt_rec)

section \<open>Lattice initializer: random mode\<close>

lemma concat_chunks:
  "concat (map (\<lambda>i. take n (drop (i * n) xs)) [0..<m]) = take (m * n) xs"
proof (induction m)
  case 0
  then show ?case by simp
next
  case (Suc m)
  have "take (m * n) xs @ take n (drop (m * n) xs) = take (m * n + n) xs"
    by (simp add: take_add)
  with Suc show ?case by (simp add: add.commute)
qed

lemma reshape_ok:
  assumes "0 \<le> N" "int (length xs) = N * N"
  shows "\<exists>l. reshape xs N = Inr l \<and> square_lattice (nat N) l \<and> concat l = xs"
proof -
  let ?n = "nat N"
  have len: "length xs = ?n * ?n" using assms
    by (metis nat_int nat_mult_distrib)
  let ?l = "map (\<lambda>i. take ?n (drop (i * ?n) xs)) [0..<?n]"
  have r: "reshape xs N = Inr ?l" using assms by (simp add: reshape_def)
  have sq: "square_lattice ?n ?l"
  proof -
    have "length (take ?n (drop (i * ?n) xs)) = ?n" if "i < ?n" for i
    proof -
      have "Suc i * ?n \<le> ?n * ?n" using that by (simp add: Suc_leI mult_le_mono1 del: mult_Suc)
      then have "?n \<le> ?n * ?n - i * ?n" by simp
      then show ?thesis using len by (simp add: min_absorb2)
    qed
    then show ?thesis by (simp add: square_lattice_def list_all_length)
  qed
  have "concat ?l = xs" using len by (simp add: concat_chunks)
  with r sq show ?thesis by blast
qed

lemma py_repeat_ok:
  assumes "0 \<le> k" "k \<le> list_capacity np" "k < 2 ^ 63"
  shows "py_repeat np v k = Inr (replicate (nat k) v)"
  using assms by (simp add: py_repeat_def)

lemma py_spins_ok:
  assumes "0 \<le> b" "b \<le> n" "n \<le> list_capacity np" "n < 2 ^ 63"
  shows "py_spins np b (n - b) = Inr (replicate (nat b) 1 @ replicate (nat (n - b)) (- 1))"
proof -
  have blue: "py_repeat np 1 b = Inr (replicate (nat b) 1)"
    using assms by (intro py_repeat_ok) simp_all
  have red: "py_repeat np (- 1) (n - b) = Inr (replicate (nat (n - b)) (- 1))"
    using assms by (intro py_repeat_ok) simp_all
  have "int (nat b + nat (n - b)) = n" using assms(1,2) by simp
  then have "\<not> list_capacity np < int (nat b + nat (n - b))" using assms(3) by simp
  then show ?thesis by (simp add: py_spins_def blue red)
qed

lemma initialize_random:
  assumes "0 \<le> N" "shuffle_permutes np"
    and "py_mul np (N * N) ratio = Inr x" "py_int x = Inr b" "0 \<le> b" "b \<le> N * N"
    and "N * N \<le> list_capacity np" "N * N < 2 ^ 63"
  shows "\<exists>l g'. initialize_lattice np N ratio True g = Inr (l, g') \<and>
           square_lattice (nat N) l \<and>
           mset (concat l) =
             replicate_mset (nat b) 1 + replicate_mset (nat (N * N) - nat b) (- 1)"
proof -
  define spins where "spins = replicate (nat b) 1 @ replicate (nat (N * N - b)) (- 1 :: int)"
  have sp: "py_spins np b (N * N - b) = Inr spins"
    unfolding spins_def using assms(5-8) by (rule py_spins_ok)
  let ?sh = "shuffle np g spins"
  have ms: "mset (fst ?sh) = mset spins" using assms(2) by (simp add: shuffle_permutes_def)
  then have "length (fst ?sh) = length spins" by (rule mset_eq_length)
  then have len: "int (length (fst ?sh)) = N * N" using assms(5,6) by (simp add: spins_def)
  obtain l where l: "reshape (fst ?sh) N = Inr l" "square_lattice (nat N) l" "concat l = fst ?sh"
    using reshape_ok [OF assms(1) len] by blast
  have init: "initialize_lattice np N ratio True g = Inr (l, snd ?sh)"
    by (simp add: initialize_lattice_def Let_def assms(3,4) sp l(1))
  have nn: "0 \<le> N * N" by simp
  have "nat (N * N - b) = nat (N * N) - nat b" using nn assms(5) by (rule nat_diff_distrib')
  then have "mset (concat l) = replicate_mset (nat b) 1 + replicate_mset (nat (N * N) - nat b) (- 1)"
    using l(3) ms by (simp add: spins_def)
  with init l(2) show ?thesis by blast
qed

lemma mul_within:
  assumes "mul_rounds_within np" "0 \<le> n" "n < 2 ^ 53" "unit_ratio x"
  shows "\<exists>y b. py_mul np n x = Inr y \<and> py_int y = Inr b \<and> 0 \<le> b \<and> b \<le> n"
proof -
  from assms have c: "case py_mul np n x of
      Inr (Finite p) \<Rightarrow> 0 \<le> p \<and> p \<le> real_of_int n | Inr NegZero \<Rightarrow> True | _ \<Rightarrow> False"
    unfolding mul_rounds_within_def by blast
  show ?thesis
  proof (cases "py_mul np n x")
    case (Inl e)
    then show ?thesis using c by simp
  next
    case (Inr y)
    show ?thesis
    proof (cases y)
      case (Finite p)
      then have p: "0 \<le> p" "p \<le> real_of_int n" using c Inr by simp_all
      then have "\<lfloor>p\<rfloor> \<le> n" by (simp add: floor_le_iff)
      then show ?thesis using Inr Finite p by (simp add: py_int_def)
    next
      case NegZero
      then show ?thesis using Inr assms(2) by (simp add: py_int_def)
    qed (use c Inr in simp_all)
  qed
qed

text \<open>
  Claim C4, amended. The source computes the number of positive spins as
  \<open>int(num_spins * ratio)\<close>: the float64 product, truncated and not rounded.
  For every N of at least 1 whose square float64 holds exactly and a Python
  list can hold, and every ratio between 0 and 1, random mode returns an N by
  N grid with exactly that many cells equal to +1 and the remaining cells
  equal to -1, whatever permutation the shuffle applies.
\<close>

theorem random_mode_counts:
  assumes "1 \<le> N" "N * N < 2 ^ 53" "N * N \<le> list_capacity np" "unit_ratio ratio"
    and "shuffle_permutes np" "mul_rounds_within np"
  shows "\<exists>x b l g'. py_mul np (N * N) ratio = Inr x \<and> py_int x = Inr b \<and>
           initialize_lattice np N ratio True g = Inr (l, g') \<and>
           square_lattice (nat N) l \<and>
           count_list (concat l) 1 = nat b \<and>
           count_list (concat l) (- 1) = nat (N * N) - nat b"
proof -
  have N0: "0 \<le> N" and nn: "0 \<le> N * N" using assms(1) by simp_all
  from mul_within [OF assms(6) nn assms(2,4)] obtain x b where
    m: "py_mul np (N * N) ratio = Inr x" "py_int x = Inr b" "0 \<le> b" "b \<le> N * N"
    by blast
  have big: "N * N < 2 ^ 63"
  proof -
    have "(2::int) ^ 53 \<le> 2 ^ 63" by simp
    with assms(2) show ?thesis by linarith
  qed
  from initialize_random [OF N0 assms(5) m assms(3) big, of g]
  obtain l g' where h: "initialize_lattice np N ratio True g = Inr (l, g')"
    "square_lattice (nat N) l"
    "mset (concat l) = replicate_mset (nat b) 1 + replicate_mset (nat (N * N) - nat b) (- 1)"
    by blast
  have "count (mset (concat l)) 1 = nat b"
       "count (mset (concat l)) (- 1) = nat (N * N) - nat b"
    by (simp_all add: h(3))
  then show ?thesis using h(1,2) m(1,2) by (auto simp: count_mset)
qed

lemma counter_mul_half: "py_mul counter_rng (2 * 2) (Finite (1 / 2)) = Inr (Finite 2)"
  by (simp add: counter_rng_def)

theorem random_mode_counts_witness:
  "(1::int) \<le> 2 \<and> (2 * 2 :: int) < 2 ^ 53 \<and> 2 * 2 \<le> list_capacity counter_rng \<and>
   unit_ratio (Finite (1 / 2)) \<and> shuffle_permutes counter_rng \<and> mul_rounds_within counter_rng \<and>
   (\<exists>l g'. py_mul counter_rng (2 * 2) (Finite (1 / 2)) = Inr (Finite 2) \<and>
       py_int (Finite 2) = Inr 2 \<and>
       initialize_lattice counter_rng 2 (Finite (1 / 2)) True 0 = Inr (l, g') \<and>
       square_lattice 2 l \<and> count_list (concat l) 1 = 2 \<and> count_list (concat l) (- 1) = 2)"
proof -
  have a: "(2 * 2 :: int) < 2 ^ 53" by simp
  have b: "2 * 2 \<le> list_capacity counter_rng" by (simp add: counter_rng_def)
  have c: "unit_ratio (Finite (1 / 2))" by (simp add: unit_ratio_def)
  have d: "py_int (Finite 2) = Inr 2" by (simp add: py_int_def)
  from random_mode_counts [OF _ a b c counter_rng_shuffle counter_rng_mul, of 0]
  obtain x k l g' where
    m: "py_mul counter_rng (2 * 2) (Finite (1 / 2)) = Inr x" "py_int x = Inr k" and
    i: "initialize_lattice counter_rng 2 (Finite (1 / 2)) True 0 = Inr (l, g')"
       "square_lattice (nat 2) l" "count_list (concat l) 1 = nat k"
       "count_list (concat l) (- 1) = nat (2 * 2) - nat k"
    by auto
  have "x = Finite 2" using m(1) counter_mul_half by simp
  then have "k = 2" using m(2) d by simp
  then have "\<exists>l g'. py_mul counter_rng (2 * 2) (Finite (1 / 2)) = Inr (Finite 2) \<and>
       py_int (Finite 2) = Inr 2 \<and>
       initialize_lattice counter_rng 2 (Finite (1 / 2)) True 0 = Inr (l, g') \<and>
       square_lattice 2 l \<and> count_list (concat l) 1 = 2 \<and> count_list (concat l) (- 1) = 2"
    using i counter_mul_half d by auto
  with a b c counter_rng_shuffle counter_rng_mul show ?thesis by simp
qed

text \<open>
  Claim C4 as stated asks for \<open>round (N\<^sup>2 * ratio)\<close> positive cells. With N = 1
  and ratio 0.75 the product \<open>1 * 0.75\<close> is exact in float64, the source places
  \<open>int(0.75) = 0\<close> positive cells, and \<open>round (0.75) = 1\<close>.
\<close>

theorem random_mode_round_counterexample:
  "initialize_lattice counter_rng 1 (Finite (3 / 4)) True 0 = Inr ([[- 1]], 1) \<and>
   count_list (concat [[- 1 :: int]]) 1 = 0 \<and>
   nat (round (real_of_int (1 * 1) * (3 / 4))) = 1"
  by (simp add: initialize_lattice_def counter_rng_def py_int_def py_spins_def py_repeat_def
        reshape_def round_def)

section \<open>The Metropolis trial on a valid lattice\<close>

lemma delta_E_square:
  assumes "square_lattice N l" "i < N" "j < N"
  shows "delta_E l i j = Inr (spec_delta_E l N i j)"
proof -
  have len: "length l = N" "length (l ! i) = N"
    using assms by (simp_all add: square_lattice_def list_all_length)
  show ?thesis
    using assms neighbors_square [OF assms]
    by (simp add: delta_E_def cell_def len spec_delta_E_def)
qed

lemma set_cell_negate:
  "set_cell l i j (l ! i ! j * - 1) = spec_negate l i j"
  "set_cell l i j (- (l ! i ! j)) = spec_negate l i j"
  by (simp_all add: set_cell_def spec_negate_def)

lemma set_cell_rows:
  assumes "row \<in> set (set_cell l i j v)"
  shows "row \<in> set l \<or> (i < length l \<and> row = (l ! i)[j := v])"
proof (cases "i < length l")
  case True
  then show ?thesis
    using assms set_update_subset_insert [of l i "(l ! i)[j := v]"]
    by (auto simp: set_cell_def)
next
  case False
  then have "l[i := (l ! i)[j := v]] = l" by (simp add: list_update_beyond)
  then show ?thesis using assms by (simp add: set_cell_def)
qed

lemma square_set_cell:
  assumes "square_lattice N l"
  shows "square_lattice N (set_cell l i j v)"
proof -
  have len: "length (set_cell l i j v) = N"
    using assms by (simp add: square_lattice_def set_cell_def)
  have "length row = N" if "row \<in> set (set_cell l i j v)" for row
    using set_cell_rows [OF that] assms
    by (auto simp: square_lattice_def list_all_iff)
  with len show ?thesis by (simp add: square_lattice_def list_all_iff)
qed

lemma spins_ok_set_cell:
  assumes "spins_ok l" "v = 1 \<or> v = - 1"
  shows "spins_ok (set_cell l i j v)"
proof -
  have "x = 1 \<or> x = - 1" if "row \<in> set (set_cell l i j v)" "x \<in> set row" for row x
  proof -
    from set_cell_rows [OF that(1)] show ?thesis
    proof
      assume "row \<in> set l"
      then show ?thesis using assms(1) that(2) by (auto simp: spins_ok_def list_all_iff)
    next
      assume h: "i < length l \<and> row = (l ! i)[j := v]"
      then have "x \<in> insert v (set (l ! i))"
        using that(2) set_update_subset_insert [of "l ! i" j v] by auto
      moreover have "l ! i \<in> set l" using h by simp
      ultimately show ?thesis using assms by (auto simp: spins_ok_def list_all_iff)
    qed
  qed
  then show ?thesis by (auto simp: spins_ok_def list_all_iff)
qed

lemma spins_ok_cell:
  "spins_ok l \<Longrightarrow> i < length l \<Longrightarrow> j < length (l ! i) \<Longrightarrow> l ! i ! j = 1 \<or> l ! i ! j = - 1"
  by (simp add: spins_ok_def list_all_length)

lemma delta_E_Inr_range:
  "delta_E l i j = Inr d \<Longrightarrow> i < length l \<and> j < length (l ! i)"
  by (auto simp: delta_E_def cell_def split: if_splits sum.splits)

lemma trial_invariant:
  assumes "trial np T (l, g, w) = Inr (l', g', w')" "square_lattice N l" "spins_ok l"
  shows "square_lattice N l' \<and> spins_ok l'"
proof -
  let ?i = "fst (fst (randint np g (length l)))"
  let ?j = "snd (fst (randint np g (length l)))"
  obtain d where d: "delta_E l ?i ?j = Inr d"
    using assms(1) by (auto simp: trial_def Let_def split: sum.splits)
  then have "?i < length l \<and> ?j < length (l ! ?i)" by (rule delta_E_Inr_range)
  then have v: "l ! ?i ! ?j * - 1 = 1 \<or> l ! ?i ! ?j * - 1 = - 1"
    using spins_ok_cell [OF assms(3), of ?i ?j] by auto
  have "l' = l \<or> l' = set_cell l ?i ?j (l ! ?i ! ?j * - 1)"
    using assms(1) d by (auto simp: trial_def Let_def split: if_splits)
  then show ?thesis
    using assms(2,3) square_set_cell [OF assms(2)] spins_ok_set_cell [OF assms(3) v]
    by auto
qed

lemma trials_invariant:
  "trials np T k (l, g, w) = Inr (l', g', w') \<Longrightarrow> square_lattice N l \<Longrightarrow> spins_ok l \<Longrightarrow>
   square_lattice N l' \<and> spins_ok l'"
proof (induction k arbitrary: l g w)
  case 0
  then show ?case by simp
next
  case (Suc k)
  from Suc.prems(1) obtain l1 g1 w1 where
    t: "trial np T (l, g, w) = Inr (l1, g1, w1)" and r: "trials np T k (l1, g1, w1) = Inr (l', g', w')"
    by (auto split: sum.splits)
  from trial_invariant [OF t Suc.prems(2,3)] Suc.IH [OF r] show ?case by blast
qed

lemma sweeps_invariant:
  "sweeps np Ts (l, g, w) = Inr (l', g', w') \<Longrightarrow> square_lattice N l \<Longrightarrow> spins_ok l \<Longrightarrow>
   square_lattice N l' \<and> spins_ok l'"
proof (induction Ts arbitrary: l g w)
  case Nil
  then show ?case by simp
next
  case (Cons t ts)
  from Cons.prems(1) obtain l1 g1 w1 where
    m: "metropolis_step np t (l, g, w) = Inr (l1, g1, w1)" and r: "sweeps np ts (l1, g1, w1) = Inr (l', g', w')"
    by (auto split: sum.splits)
  from m have "trials np t (length l ^ 2) (l, g, w) = Inr (l1, g1, w1)"
    by (simp add: metropolis_step_def)
  from trials_invariant [OF this Cons.prems(2,3)] Cons.IH [OF r] show ?case by blast
qed

lemma trial_refines:
  assumes "square_lattice N l" "0 < N" "randint_in_range np"
  shows "\<exists>w'. trial np T (l, g, w) =
           Inr (fst (spec_trial np T N (l, g)), snd (spec_trial np T N (l, g)), w')"
proof -
  have len: "length l = N" using assms(1) by (simp add: square_lattice_def)
  let ?i = "fst (fst (randint np g N))"
  let ?j = "snd (fst (randint np g N))"
  have ij: "?i < N" "?j < N" using assms(2,3) by (simp_all add: randint_in_range_def)
  have d: "delta_E l ?i ?j = Inr (spec_delta_E l N ?i ?j)"
    using assms(1) ij by (rule delta_E_square)
  show ?thesis
    by (simp add: trial_def spec_trial_def spec_exp_quotient_def len d Let_def set_cell_negate)
qed

section \<open>One sweep is N * N trials of the specified rule\<close>

lemma spec_trial_square:
  assumes "square_lattice N l"
  shows "square_lattice N (fst (spec_trial np T N (l, g)))"
  using assms square_set_cell [OF assms, of "fst (fst (randint np g N))" "snd (fst (randint np g N))"
      "- (l ! fst (fst (randint np g N)) ! snd (fst (randint np g N)))"]
  by (simp add: spec_trial_def Let_def set_cell_negate)

lemma trials_refines:
  assumes "0 < N" "randint_in_range np"
  shows "square_lattice N l \<Longrightarrow>
         \<exists>w'. trials np T k (l, g, w) =
           Inr (fst ((spec_trial np T N ^^ k) (l, g)), snd ((spec_trial np T N ^^ k) (l, g)), w')"
proof (induction k arbitrary: l g w)
  case 0
  then show ?case by simp
next
  case (Suc k)
  obtain l1 g1 where s: "spec_trial np T N (l, g) = (l1, g1)" by (cases "spec_trial np T N (l, g)")
  have sq: "square_lattice N l1" using spec_trial_square [OF Suc.prems, of np T g] s by simp
  obtain w1 where "trial np T (l, g, w) = Inr (l1, g1, w1)"
    using trial_refines [OF Suc.prems assms, of T g w] s by auto
  then show ?case using Suc.IH [OF sq, of g1 w1] s by (simp add: funpow_swap1)
qed

lemma metropolis_step_refines:
  assumes "0 < N" "square_lattice N l" "randint_in_range np"
  shows "\<exists>w'. metropolis_step np T (l, g, w) =
           Inr (fst ((spec_trial np T N ^^ (N * N)) (l, g)),
                snd ((spec_trial np T N ^^ (N * N)) (l, g)), w')"
proof -
  have len: "length l = N" using assms(2) by (simp add: square_lattice_def)
  from trials_refines [OF assms(1) assms(3) assms(2), of T "N * N" g w]
  show ?thesis by (simp add: metropolis_step_def len power2_eq_square)
qed


lemma exp_minus_8: "\<not> (1 / 2 < exp (- 8 :: real))"
proof -
  have "1 + (8::real) \<le> exp 8" by (rule exp_ge_add_one_self)
  then have "exp (- 8 :: real) \<le> 1 / 9"
    by (simp add: exp_minus field_simps)
  then show ?thesis by simp
qed

lemma exp_minus_8': "\<not> (1 < exp (- 8 :: real) * 2)"
  using exp_minus_8 by simp

lemma funpow_4: "(f ^^ 4) x = f (f (f (f x)))"
  by (simp add: numeral_eq_Suc)

lemmas sev = spec_trial_def spec_delta_E_def spec_neighbor_sum_def spec_negate_def
  spec_exp_quotient_def np_divide_def np_exp_def counter_rng_def Let_def exp_minus_8 exp_minus_8'

lemma counter_trial_quiet:
  assumes "T \<noteq> Finite 0" "T \<noteq> NegZero" "trial counter_rng T (l, g, w) = Inr (l', g', w')"
  shows "w' = w"
proof -
  have q: "snd (np_divide counter_rng x T) = []" for x
    using assms(1,2) by (simp add: np_divide_def counter_rng_def)
  have p: "snd (np_exp counter_rng y) = []" for y
    by (cases y) (simp_all add: np_exp_def counter_rng_def)
  show ?thesis
    using assms(3) by (auto simp: trial_def Let_def q p split: sum.splits if_splits)
qed

lemma counter_trials_quiet:
  assumes "T \<noteq> Finite 0" "T \<noteq> NegZero"
  shows "trials counter_rng T k (l, g, w) = Inr (l', g', w') \<Longrightarrow> w' = w"
proof (induction k arbitrary: l g w)
  case 0
  then show ?case by simp
next
  case (Suc k)
  from Suc.prems obtain l1 g1 w1 where
    t: "trial counter_rng T (l, g, w) = Inr (l1, g1, w1)" and
    r: "trials counter_rng T k (l1, g1, w1) = Inr (l', g', w')"
    by (auto split: sum.splits)
  from counter_trial_quiet [OF assms t] Suc.IH [OF r] show ?case by simp
qed

lemma counter_sweep_quiet:
  assumes "T \<noteq> Finite 0" "T \<noteq> NegZero"
    and "metropolis_step counter_rng T (l, g, w) = Inr (l', g', w')"
  shows "w' = w"
  using counter_trials_quiet [OF assms(1,2)] assms(3) by (simp add: metropolis_step_def)


section \<open>The lattice invariant\<close>

lemma reshape_Inr:
  assumes "reshape xs N = Inr l"
  shows "square_lattice (nat N) l \<and> concat l = xs"
proof -
  have "0 \<le> N" "int (length xs) = N * N"
    using assms by (auto simp: reshape_def split: if_splits)
  from reshape_ok [OF this] assms show ?thesis by auto
qed

lemma spins_ok_concat: "spins_ok l = (\<forall>v \<in> set (concat l). v = 1 \<or> v = - 1)"
  by (auto simp: spins_ok_def list_all_iff)

lemma py_repeat_values: "py_repeat np v k = Inr xs \<Longrightarrow> set xs \<subseteq> {v}"
  by (auto simp: py_repeat_def split: if_splits)

lemma py_spins_values:
  assumes "py_spins np b r = Inr spins"
  shows "set spins \<subseteq> {1, - 1}"
proof -
  from assms obtain blue red where
    "py_repeat np 1 b = Inr blue" "py_repeat np (- 1) r = Inr red" "spins = blue @ red"
    by (auto simp: py_spins_def split: sum.splits if_splits)
  then show ?thesis using py_repeat_values [of np 1 b blue] py_repeat_values [of np "- 1" r red]
    by auto
qed

lemma initialize_invariant:
  assumes "initialize_lattice np N ratio randomize g = Inr (l, g')" "shuffle_permutes np"
  shows "square_lattice (nat N) l \<and> spins_ok l"
proof (cases randomize)
  case True
  from assms(1) True obtain b r spins where
    sp: "py_spins np b r = Inr spins" and
    rs: "reshape (fst (shuffle np g spins)) N = Inr l"
    by (auto simp: initialize_lattice_def Let_def split: sum.splits)
  have "mset (fst (shuffle np g spins)) = mset spins"
    using assms(2) by (simp add: shuffle_permutes_def)
  then have "set (fst (shuffle np g spins)) = set spins" by (rule mset_eq_setD)
  then have "\<forall>v \<in> set (fst (shuffle np g spins)). v = 1 \<or> v = - 1"
    using py_spins_values [OF sp] by auto
  with reshape_Inr [OF rs] show ?thesis by (simp add: spins_ok_concat)
next
  case False
  then have N: "0 \<le> N" using assms(1) by (auto simp: initialize_lattice_def split: if_splits)
  from initialize_deterministic [OF N, of np ratio g] assms(1) False
  have l: "l = map (\<lambda>i. map (\<lambda>j. if int j < N div 2 then - 1 else 1) [0..<nat N]) [0..<nat N]"
    by simp
  show ?thesis
    by (auto simp: l square_lattice_def spins_ok_def list_all_iff)
qed

text \<open>
  Claim C8. Whatever the initializer returns, in either mode, is an N by N grid
  of +1 and -1, and so is the lattice after any sequence of whole sweeps and
  after any number of further trials of a sweep in progress: no step resizes
  the grid or writes a value other than +1 or -1. The shuffle is assumed to
  permute its argument, as numpy's does.
\<close>

theorem lattice_invariant:
  assumes "shuffle_permutes np"
    and "initialize_lattice np N ratio randomize g = Inr (l0, g0)"
    and "sweeps np Ts (l0, g0, w0) = Inr (l1, g1, w1)"
    and "trials np T k (l1, g1, w1) = Inr (l2, g2, w2)"
  shows "square_lattice (nat N) l0 \<and> spins_ok l0 \<and>
         square_lattice (nat N) l1 \<and> spins_ok l1 \<and>
         square_lattice (nat N) l2 \<and> spins_ok l2"
proof -
  have i0: "square_lattice (nat N) l0 \<and> spins_ok l0"
    using assms(2,1) by (rule initialize_invariant)
  then have i1: "square_lattice (nat N) l1 \<and> spins_ok l1"
    using sweeps_invariant [OF assms(3)] by blast
  then have "square_lattice (nat N) l2 \<and> spins_ok l2"
    using trials_invariant [OF assms(4)] by blast
  with i0 i1 show ?thesis by blast
qed

lemma replicate_2: "replicate 2 x = [x, x]"
  by (simp add: numeral_2_eq_2)

lemma init_2x2:
  "initialize_lattice counter_rng 2 (Finite (1 / 2)) True 0 = Inr ([[- 1, - 1], [1, 1]], Suc 0)"
  by (simp add: initialize_lattice_def py_int_def py_spins_def py_repeat_def reshape_def
        counter_rng_def Let_def upt_rec replicate_2)

lemma sweep1_2x2:
  "metropolis_step counter_rng (Finite 1) ([[- 1, - 1], [1, 1]], Suc 0, []) =
     Inr ([[- 1, - 1], [- 1, - 1]], 8, [])"
proof -
  have sq: "square_lattice 2 [[- 1, - 1], [1, 1]]" by (simp add: square_lattice_def)
  have t1: "spec_trial counter_rng (Finite 1) 2 ([[- 1, - 1], [1, 1]], 1) = ([[- 1, - 1], [- 1, 1]], 3)"
    by (simp add: sev)
  have t2: "spec_trial counter_rng (Finite 1) 2 ([[- 1, - 1], [- 1, 1]], 3) = ([[- 1, - 1], [- 1, - 1]], 4)"
    by (simp add: sev)
  have t3: "spec_trial counter_rng (Finite 1) 2 ([[- 1, - 1], [- 1, - 1]], 4) = ([[- 1, - 1], [- 1, - 1]], 6)"
    by (simp add: sev)
  have t4: "spec_trial counter_rng (Finite 1) 2 ([[- 1, - 1], [- 1, - 1]], 6) = ([[- 1, - 1], [- 1, - 1]], 8)"
    by (simp add: sev)
  have f: "(spec_trial counter_rng (Finite 1) 2 ^^ 4) ([[- 1, - 1], [1, 1]], 1) = ([[- 1, - 1], [- 1, - 1]], 8)"
    by (simp only: funpow_4 t1 t2 t3 t4)
  from metropolis_step_refines [OF _ sq counter_rng_randint, of "Finite 1" 1 "[]"] f
  obtain w' where m: "metropolis_step counter_rng (Finite 1) ([[- 1, - 1], [1, 1]], Suc 0, []) =
     Inr ([[- 1, - 1], [- 1, - 1]], 8, w')" by auto
  have "w' = []" by (rule counter_sweep_quiet [OF _ _ m]) simp_all
  with m show ?thesis by simp
qed

lemma trial_2x2:
  "trials counter_rng (Finite 1) 1 ([[- 1, - 1], [- 1, - 1]], 8, []) =
     Inr ([[- 1, - 1], [- 1, - 1]], 10, [])"
proof -
  have sq: "square_lattice 2 [[- 1, - 1], [- 1, - 1]]" by (simp add: square_lattice_def)
  have t5: "spec_trial counter_rng (Finite 1) 2 ([[- 1, - 1], [- 1, - 1]], 8) = ([[- 1, - 1], [- 1, - 1]], 10)"
    by (simp add: sev)
  from trials_refines [OF _ counter_rng_randint sq, of "Finite 1" 1 8 "[]"] t5
  obtain w' where m: "trials counter_rng (Finite 1) 1 ([[- 1, - 1], [- 1, - 1]], 8, []) =
     Inr ([[- 1, - 1], [- 1, - 1]], 10, w')" by auto
  have "w' = []" by (rule counter_trials_quiet [OF _ _ m]) simp_all
  with m show ?thesis by simp
qed

theorem lattice_invariant_witness:
  "shuffle_permutes counter_rng \<and>
   initialize_lattice counter_rng 2 (Finite (1 / 2)) True 0 = Inr ([[- 1, - 1], [1, 1]], 1) \<and>
   sweeps counter_rng [Finite 1] ([[- 1, - 1], [1, 1]], 1, []) =
     Inr ([[- 1, - 1], [- 1, - 1]], 8, []) \<and>
   trials counter_rng (Finite 1) 1 ([[- 1, - 1], [- 1, - 1]], 8, []) =
     Inr ([[- 1, - 1], [- 1, - 1]], 10, []) \<and>
   square_lattice (nat 2) [[- 1, - 1], [- 1, - 1]] \<and> spins_ok [[- 1, - 1], [- 1, - 1]]"
proof -
  have i: "initialize_lattice counter_rng 2 (Finite (1 / 2)) True 0 = Inr ([[- 1, - 1], [1, 1]], 1)"
    using init_2x2 by simp
  have s: "sweeps counter_rng [Finite 1] ([[- 1, - 1], [1, 1]], 1, []) =
          Inr ([[- 1, - 1], [- 1, - 1]], 8, [])"
    using sweep1_2x2 by simp
  from lattice_invariant [OF counter_rng_shuffle i s trial_2x2] i s trial_2x2 counter_rng_shuffle
  show ?thesis by blast
qed

section \<open>Flipping one spin: the analytic energy change\<close>

lemma succ_mod: "i < N \<Longrightarrow> (i + 1) mod N = (if i + 1 = N then 0 else i + 1)" for i N :: nat
  by (auto simp: mod_Suc)

lemma pred_mod: "i < N \<Longrightarrow> (i + N - 1) mod N = (if i = 0 then N - 1 else i - 1)" for i N :: nat
proof (cases "i = 0")
  case True
  assume "i < N"
  then have "N - 1 < N" by arith
  then have "(N - 1) mod N = N - 1" by (rule mod_less)
  then show ?thesis using True by simp
next
  case False
  assume "i < N"
  have "i + N - 1 = (i - 1) + N" using False by simp
  then have "(i + N - 1) mod N = (i - 1) mod N" by simp
  then show ?thesis using False \<open>i < N\<close> by simp
qed

lemma succ_eq_iff:
  fixes i a N :: nat
  assumes "i < N" "a < N"
  shows "((i + 1) mod N = a) = (i = (a + N - 1) mod N)"
  unfolding succ_mod [OF assms(1)] pred_mod [OF assms(2)] using assms by auto

lemma pred_eq_iff:
  fixes i a N :: nat
  assumes "i < N" "a < N"
  shows "((i + N - 1) mod N = a) = (i = (a + 1) mod N)"
  unfolding succ_mod [OF assms(2)] pred_mod [OF assms(1)] using assms by auto

lemma sum_delta1:
  fixes b N :: nat
  assumes "b < N"
  shows "(\<Sum>j<N. (if j = b then X j else 0)) = (X b :: int)"
  using assms by (simp add: sum.delta)

lemma sum_delta2:
  fixes a b N :: nat
  assumes "a < N" "b < N"
  shows "(\<Sum>i<N. \<Sum>j<N. (if i = a \<and> j = b then X i j else 0)) = (X a b :: int)"
proof -
  have "(\<Sum>j<N. (if i = a \<and> j = b then X i j else 0)) = (if i = a then X i b else 0)" for i
  proof (cases "i = a")
    case True
    then show ?thesis using sum_delta1 [OF assms(2), of "X i"] by simp
  next
    case False
    then show ?thesis by simp
  qed
  then show ?thesis using sum_delta1 [OF assms(1), of "\<lambda>i. X i b"] by simp
qed

lemma sum_delta2_mult:
  fixes a b N :: nat
  assumes "a < N" "b < N"
  shows "(\<Sum>i<N. \<Sum>j<N. X i j * (if i = a \<and> j = b then 1 else 0)) = (X a b :: int)"
proof -
  have "X i j * (if i = a \<and> j = b then 1 else 0) = (if i = a \<and> j = b then X i j else 0)" for i j
    by simp
  then show ?thesis using sum_delta2 [OF assms, of X] by simp
qed

lemma sum_rows_shift:
  fixes a b N :: nat
  assumes "a < N" "b < N" "\<And>i. i < N \<Longrightarrow> (p i = a) = (i = a')" "a' < N"
  shows "(\<Sum>i<N. \<Sum>j<N. X i j * (if p i = a \<and> j = b then 1 else 0)) = (X a' b :: int)"
proof -
  have "(\<Sum>i<N. \<Sum>j<N. X i j * (if p i = a \<and> j = b then 1 else 0)) =
        (\<Sum>i<N. \<Sum>j<N. X i j * (if i = a' \<and> j = b then 1 else 0))"
    by (intro sum.cong refl) (simp add: assms(3))
  then show ?thesis using sum_delta2_mult [OF assms(4) assms(2), of X] by simp
qed

lemma sum_cols_shift:
  fixes a b N :: nat
  assumes "a < N" "b < N" "\<And>j. j < N \<Longrightarrow> (p j = b) = (j = b')" "b' < N"
  shows "(\<Sum>i<N. \<Sum>j<N. X i j * (if i = a \<and> p j = b then 1 else 0)) = (X a b' :: int)"
proof -
  have "(\<Sum>i<N. \<Sum>j<N. X i j * (if i = a \<and> p j = b then 1 else 0)) =
        (\<Sum>i<N. \<Sum>j<N. X i j * (if i = a \<and> j = b' then 1 else 0))"
    by (intro sum.cong refl) (simp add: assms(3))
  then show ?thesis using sum_delta2_mult [OF assms(1) assms(4), of X] by simp
qed

lemma neighbour_transpose:
  fixes a b N :: nat and F :: "nat \<Rightarrow> nat \<Rightarrow> int"
  assumes "a < N" "b < N"
  defines "D \<equiv> \<lambda>i j. if i = a \<and> j = b then (1::int) else 0"
  shows "(\<Sum>i<N. \<Sum>j<N. F i j * site_nb N D i j) = site_nb N F a b"
proof -
  have N: "0 < N" using assms(1) by simp
  have r1: "(\<Sum>i<N. \<Sum>j<N. F i j * D ((i + 1) mod N) j) = F ((a + N - 1) mod N) b"
    unfolding D_def
    by (rule sum_rows_shift [OF assms(1,2) succ_eq_iff [OF _ assms(1)]]) (simp_all add: N)
  have r2: "(\<Sum>i<N. \<Sum>j<N. F i j * D ((i + N - 1) mod N) j) = F ((a + 1) mod N) b"
    unfolding D_def
    by (rule sum_rows_shift [OF assms(1,2) pred_eq_iff [OF _ assms(1)]]) (simp_all add: N)
  have r3: "(\<Sum>i<N. \<Sum>j<N. F i j * D i ((j + 1) mod N)) = F a ((b + N - 1) mod N)"
    unfolding D_def
    by (rule sum_cols_shift [OF assms(1,2) succ_eq_iff [OF _ assms(2)]]) (simp_all add: N)
  have r4: "(\<Sum>i<N. \<Sum>j<N. F i j * D i ((j + N - 1) mod N)) = F a ((b + 1) mod N)"
    unfolding D_def
    by (rule sum_cols_shift [OF assms(1,2) pred_eq_iff [OF _ assms(2)]]) (simp_all add: N)
  have "(\<Sum>i<N. \<Sum>j<N. F i j * site_nb N D i j) =
        (\<Sum>i<N. \<Sum>j<N. F i j * D ((i + 1) mod N) j) +
        (\<Sum>i<N. \<Sum>j<N. F i j * D ((i + N - 1) mod N) j) +
        (\<Sum>i<N. \<Sum>j<N. F i j * D i ((j + 1) mod N)) +
        (\<Sum>i<N. \<Sum>j<N. F i j * D i ((j + N - 1) mod N))"
    by (simp add: site_nb_def distrib_left sum.distrib)
  also have "\<dots> = F ((a + 1) mod N) b + F ((a + N - 1) mod N) b +
                    F a ((b + 1) mod N) + F a ((b + N - 1) mod N)"
    by (simp only: r1 r2 r3 r4 add_ac)
  also have "\<dots> = site_nb N F a b" by (simp only: site_nb_def)
  finally show ?thesis .
qed

lemma flip_quadratic:
  fixes a b N :: nat and F :: "nat \<Rightarrow> nat \<Rightarrow> int"
  assumes "2 \<le> N" "a < N" "b < N"
  defines "G \<equiv> \<lambda>i j. if i = a \<and> j = b then - F a b else (F i j :: int)"
  shows "(\<Sum>i<N. \<Sum>j<N. G i j * site_nb N G i j) =
         (\<Sum>i<N. \<Sum>j<N. F i j * site_nb N F i j) - 4 * F a b * site_nb N F a b"
proof -
  define D where "D = (\<lambda>i j. if i = a \<and> j = b then (1::int) else 0)"
  define s where "s = F a b"
  have G: "G i j = F i j - 2 * s * D i j" for i j
    by (simp add: G_def D_def s_def)
  have nbG: "site_nb N G i j = site_nb N F i j - 2 * s * site_nb N D i j" for i j
    by (simp add: site_nb_def G algebra_simps)
  have e: "G i j * site_nb N G i j =
           F i j * site_nb N F i j - 2 * s * (site_nb N F i j * D i j)
           - 2 * s * (F i j * site_nb N D i j) + 4 * s * s * (site_nb N D i j * D i j)" for i j
    by (simp add: G nbG algebra_simps)
  have split: "(\<Sum>i<N. \<Sum>j<N. G i j * site_nb N G i j) =
        (\<Sum>i<N. \<Sum>j<N. F i j * site_nb N F i j)
        - 2 * s * (\<Sum>i<N. \<Sum>j<N. site_nb N F i j * D i j)
        - 2 * s * (\<Sum>i<N. \<Sum>j<N. F i j * site_nb N D i j)
        + 4 * s * s * (\<Sum>i<N. \<Sum>j<N. site_nb N D i j * D i j)"
    by (simp only: e sum.distrib sum_subtractf sum_distrib_left)
  have s1: "(\<Sum>i<N. \<Sum>j<N. site_nb N F i j * D i j) = site_nb N F a b"
    unfolding D_def by (rule sum_delta2_mult [OF assms(2,3)])
  have s2: "(\<Sum>i<N. \<Sum>j<N. F i j * site_nb N D i j) = site_nb N F a b"
    unfolding D_def by (rule neighbour_transpose [OF assms(2,3)])
  have s3: "(\<Sum>i<N. \<Sum>j<N. site_nb N D i j * D i j) = site_nb N D a b"
    unfolding D_def by (rule sum_delta2_mult [OF assms(2,3)])
  have n1: "(a + 1) mod N \<noteq> a" unfolding succ_mod [OF assms(2)] using assms(1) by auto
  have n2: "(a + N - 1) mod N \<noteq> a" unfolding pred_mod [OF assms(2)] using assms(1,2) by auto
  have n3: "(b + 1) mod N \<noteq> b" unfolding succ_mod [OF assms(3)] using assms(1) by auto
  have n4: "(b + N - 1) mod N \<noteq> b" unfolding pred_mod [OF assms(3)] using assms(1,3) by auto
  have s4: "site_nb N D a b = 0"
    unfolding site_nb_def D_def using n1 n2 n3 n4 by (simp only: if_False simp_thms)
  show ?thesis by (simp add: split s1 s2 s3 s4 s_def)
qed

lemma spec_neighbor_site:
  "spec_neighbor_sum l N i j = site_nb N (\<lambda>i j. l ! i ! j) i j"
  by (simp add: spec_neighbor_sum_def site_nb_def)

lemma set_cell_nth:
  assumes "square_lattice N l" "a < N" "b < N" "i < N" "j < N"
  shows "set_cell l a b v ! i ! j = (if i = a \<and> j = b then v else l ! i ! j)"
proof -
  have len: "length l = N" "length (l ! a) = N"
    using assms(1,2) by (simp_all add: square_lattice_def list_all_length)
  show ?thesis using assms(2-5) len by (simp add: set_cell_def nth_list_update)
qed

lemma energy_sum_flip:
  assumes "2 \<le> N" "square_lattice N l" "a < N" "b < N"
  shows "(\<Sum>i<N. \<Sum>j<N. - (set_cell l a b (- (l ! a ! b)) ! i ! j) *
             spec_neighbor_sum (set_cell l a b (- (l ! a ! b))) N i j) =
         (\<Sum>i<N. \<Sum>j<N. - (l ! i ! j) * spec_neighbor_sum l N i j) +
         4 * (l ! a ! b) * spec_neighbor_sum l N a b"
proof -
  let ?F = "\<lambda>i j. l ! i ! j"
  let ?G = "\<lambda>i j. if i = a \<and> j = b then - ?F a b else ?F i j"
  let ?l' = "set_cell l a b (- (l ! a ! b))"
  have N: "0 < N" using assms(1) by simp
  have cell: "?l' ! i ! j = ?G i j" if "i < N" "j < N" for i j
    using set_cell_nth [OF assms(2-4) that] by simp
  have nb: "spec_neighbor_sum ?l' N i j = site_nb N ?G i j" if "i < N" "j < N" for i j
  proof -
    have m: "(i + 1) mod N < N" "(i + N - 1) mod N < N" "(j + 1) mod N < N" "(j + N - 1) mod N < N"
      using N by simp_all
    show ?thesis
      unfolding spec_neighbor_sum_def site_nb_def
      by (simp only: cell [OF m(1) that(2)] cell [OF m(2) that(2)]
            cell [OF that(1) m(3)] cell [OF that(1) m(4)])
  qed
  have "(\<Sum>i<N. \<Sum>j<N. - (?l' ! i ! j) * spec_neighbor_sum ?l' N i j) =
        (\<Sum>i<N. \<Sum>j<N. - (?G i j * site_nb N ?G i j))"
    by (intro sum.cong refl) (simp add: cell nb)
  also have "\<dots> = - (\<Sum>i<N. \<Sum>j<N. ?G i j * site_nb N ?G i j)"
    by (simp add: sum_negf)
  also have "\<dots> = - ((\<Sum>i<N. \<Sum>j<N. ?F i j * site_nb N ?F i j) - 4 * ?F a b * site_nb N ?F a b)"
    using flip_quadratic [OF assms(1,3,4), of "\<lambda>i j. l ! i ! j"] by simp
  also have "\<dots> = (\<Sum>i<N. \<Sum>j<N. - (?F i j) * spec_neighbor_sum l N i j) +
                    4 * ?F a b * spec_neighbor_sum l N a b"
    by (simp add: spec_neighbor_site sum_negf)
  finally show ?thesis .
qed

text \<open>
  Claim C2, amended. On an N by N lattice of +1 and -1 with N at least 2, for
  every cell \<open>(i, j)\<close>, the \<open>delta_E\<close> of \<open>metropolis_step\<close> equals the
  energy \<open>calculate_energy\<close> returns for the lattice with that one spin negated,
  minus the energy it returns for the lattice as it is. (For N = 1 the cell is
  its own neighbour on the torus and the two differ.)
\<close>

theorem flip_energy_difference:
  assumes "2 \<le> N" "square_lattice N l" "spins_ok l" "i < N" "j < N"
  shows "\<exists>d e e'. delta_E l i j = Inr d \<and> calculate_energy l = Inr e \<and>
           calculate_energy (set_cell l i j (- (l ! i ! j))) = Inr e' \<and>
           real_of_int d = e' - e"
proof -
  define l' where "l' = set_cell l i j (- (l ! i ! j))"
  define S where "S = (\<Sum>x<N. \<Sum>y<N. - (l ! x ! y) * spec_neighbor_sum l N x y)"
  define S' where "S' = (\<Sum>x<N. \<Sum>y<N. - (l' ! x ! y) * spec_neighbor_sum l' N x y)"
  have d: "delta_E l i j = Inr (spec_delta_E l N i j)"
    using assms(2,4,5) by (rule delta_E_square)
  have e: "calculate_energy l = Inr (real_of_int S / 2)"
    unfolding S_def using assms(2) by (rule calculate_energy_square)
  have e': "calculate_energy l' = Inr (real_of_int S' / 2)"
    unfolding S'_def l'_def using square_set_cell [OF assms(2)] by (rule calculate_energy_square)
  have "S' = S + 4 * (l ! i ! j) * spec_neighbor_sum l N i j"
    unfolding S'_def S_def l'_def using assms(1,2,4,5) by (rule energy_sum_flip)
  then have "real_of_int (spec_delta_E l N i j) = real_of_int S' / 2 - real_of_int S / 2"
    by (simp add: spec_delta_E_def field_simps)
  with d e e' show ?thesis unfolding l'_def by blast
qed

theorem flip_energy_difference_witness:
  "(2::nat) \<le> 2 \<and> square_lattice 2 [[1, - 1], [1, 1]] \<and> spins_ok [[1, - 1], [1, 1]] \<and>
   (0::nat) < 2 \<and> (1::nat) < 2 \<and>
   (\<exists>d e e'. delta_E [[1, - 1], [1, 1]] 0 1 = Inr d \<and> calculate_energy [[1, - 1], [1, 1]] = Inr e \<and>
      calculate_energy (set_cell [[1, - 1], [1, 1]] 0 1 (- ([[1, - 1], [1, 1]] ! 0 ! 1))) = Inr e' \<and>
      real_of_int d = e' - e)"
  using flip_energy_difference [of 2 "[[1, - 1], [1, 1]]" 0 1]
  by (simp add: square_lattice_def spins_ok_def)

text \<open>
  Claim C2 as stated covers every lattice. On the 1 by 1 lattice \<open>[[1]]\<close> the
  source computes \<open>delta_E = 8\<close>, while the energy is \<open>-2\<close> before and after the
  flip.
\<close>

theorem flip_energy_single_cell_counterexample:
  "delta_E [[1]] 0 0 = Inr 8 \<and> calculate_energy [[1]] = Inr (- 2) \<and>
   calculate_energy (set_cell [[1]] 0 0 (- ([[1]] ! 0 ! 0))) = Inr (- 2) \<and>
   real_of_int 8 \<noteq> (- 2) - (- 2 :: real)"
  by (simp add: delta_E_def cell_def neighbors_def wrap_def calculate_energy_def
        energy_row_def energy_site_def set_cell_def)

section \<open>Temperature zero\<close>

lemma trial_zero_temperature_eval:
  assumes "square_lattice N l" "0 < N" "randint_in_range np" "randint np g N = ((i, j), g1)"
    and "rand_in_unit np" "T = Finite 0 \<or> T = NegZero"
  shows "delta_E l i j = Inr (spec_delta_E l N i j) \<and>
         trial np T (l, g, w) =
           (if spec_delta_E l N i j < 0 then Inr (spec_negate l i j, g1, w)
            else if spec_delta_E l N i j = 0
              then Inr (l, snd (rand np g1), w @ [InvalidValue])
            else if T = NegZero
              then Inr (spec_negate l i j, snd (rand np g1), w @ [DivideByZero])
            else Inr (l, snd (rand np g1), w @ [DivideByZero]))"
proof -
  have len: "length l = N" using assms(1) by (simp add: square_lattice_def)
  have "fst (fst (randint np g N)) < N" "snd (fst (randint np g N)) < N"
    using assms(2,3) by (simp_all add: randint_in_range_def)
  then have ij: "i < N" "j < N" by (simp_all add: assms(4))
  have d: "delta_E l i j = Inr (spec_delta_E l N i j)"
    using assms(1) ij by (rule delta_E_square)
  have u: "\<not> fst (rand np g1) < 0" using assms(5) by (simp add: rand_in_unit_def not_less)
  from assms(6) show ?thesis
  proof
    assume "T = Finite 0"
    then show ?thesis
      by (simp add: trial_def len assms(4) d Let_def set_cell_negate np_divide_def np_exp_def u)
  next
    assume "T = NegZero"
    then show ?thesis
      by (simp add: trial_def len assms(4) d Let_def set_cell_negate np_divide_def np_exp_def u)
  qed
qed

text \<open>
  Claim C5, amended. The source has no guard for a temperature of 0. At
  temperature zero a trial with \<open>delta_E \<ge> 0\<close> still takes its uniform draw and
  divides \<open>-delta_E\<close> by the temperature. With \<open>delta_E = 0\<close> numpy returns nan
  with an invalid-value warning and the spin is left unchanged. With
  \<open>delta_E > 0\<close> it records a divide-by-zero warning and returns minus infinity
  when the temperature is the positive zero, and the spin is left unchanged,
  and plus infinity when it is the negative zero (which equals 0 as well), and
  the spin is flipped. A trial with \<open>delta_E < 0\<close> flips the spin without a draw
  or a division.
\<close>

theorem trial_zero_temperature:
  assumes "square_lattice N l" "0 < N" "randint_in_range np" "randint np g N = ((i, j), g1)"
    and "rand_in_unit np" "T = Finite 0 \<or> T = NegZero"
  shows "\<exists>d. delta_E l i j = Inr d \<and>
           trial np T (l, g, w) =
             (if d < 0 then Inr (set_cell l i j (- (l ! i ! j)), g1, w)
              else if d = 0 then Inr (l, snd (rand np g1), w @ [InvalidValue])
              else if T = NegZero
                then Inr (set_cell l i j (- (l ! i ! j)), snd (rand np g1), w @ [DivideByZero])
              else Inr (l, snd (rand np g1), w @ [DivideByZero]))"
  using trial_zero_temperature_eval [OF assms, of w] by (simp add: set_cell_negate)

lemma counter_randint_0_1: "randint counter_rng 0 1 = ((0, 0), 1)"
  by (simp add: counter_rng_def)

lemma square_1: "square_lattice 1 [[v]]"
  by (simp add: square_lattice_def)

lemma trial_positive_zero:
  "trial counter_rng (Finite 0) ([[1]], 0, []) = Inr ([[1]], 2, [DivideByZero])"
  using trial_zero_temperature_eval [OF square_1 [of 1] _ counter_rng_randint counter_randint_0_1
      counter_rng_rand, of "Finite 0" "[]"]
  by (simp add: spec_delta_E_def spec_neighbor_sum_def) (simp add: counter_rng_def)

lemma trial_negative_zero:
  "trial counter_rng NegZero ([[1]], 0, []) = Inr ([[- 1]], 2, [DivideByZero])"
  using trial_zero_temperature_eval [OF square_1 [of 1] _ counter_rng_randint counter_randint_0_1
      counter_rng_rand, of NegZero "[]"]
  by (simp add: spec_delta_E_def spec_neighbor_sum_def spec_negate_def) (simp add: counter_rng_def)

lemma delta_E_single: "delta_E [[1]] 0 0 = Inr 8"
  by (simp add: delta_E_def cell_def neighbors_def wrap_def)

theorem trial_zero_temperature_witness:
  "square_lattice 1 [[1]] \<and> (0::nat) < 1 \<and> randint_in_range counter_rng \<and>
   randint counter_rng 0 1 = ((0, 0), 1) \<and> rand_in_unit counter_rng \<and>
   delta_E [[1]] 0 0 = Inr 8 \<and>
   trial counter_rng NegZero ([[1]], 0, []) = Inr ([[- 1]], 2, [DivideByZero])"
proof -
  have z: "NegZero = Finite 0 \<or> NegZero = NegZero" by simp
  from trial_zero_temperature [OF square_1 [of 1] _ counter_rng_randint counter_randint_0_1
      counter_rng_rand z, of "[]"]
  obtain d where d: "delta_E [[1]] 0 0 = Inr d" and
    t: "trial counter_rng NegZero ([[1]], 0, []) =
        (if d < 0 then Inr (set_cell [[1]] 0 0 (- ([[1]] ! 0 ! 0)), 1, [])
         else if d = 0 then Inr ([[1]], snd (rand counter_rng 1), [] @ [InvalidValue])
         else Inr (set_cell [[1]] 0 0 (- ([[1]] ! 0 ! 0)), snd (rand counter_rng 1),
                   [] @ [DivideByZero]))"
    by auto
  have "d = 8" using d delta_E_single by simp
  then have "trial counter_rng NegZero ([[1]], 0, []) = Inr ([[- 1]], 2, [DivideByZero])"
    using t by (simp add: set_cell_def counter_rng_def)
  with square_1 [of 1] counter_rng_randint counter_randint_0_1 counter_rng_rand delta_E_single
  show ?thesis by simp
qed

text \<open>
  Claim C5 as stated says that at T = 0 every trial with \<open>delta_E \<ge> 0\<close> is
  rejected and that no division by zero is performed. On the lattice \<open>[[1]]\<close>
  (\<open>delta_E = 8\<close>) the trial at the positive zero is rejected only after it has
  consumed the uniform draw and recorded the warning of the division, and the
  trial at the negative zero flips the spin.
\<close>

theorem zero_temperature_division_counterexample:
  "trial counter_rng (Finite 0) ([[1]], 0, []) = Inr ([[1]], 2, [DivideByZero]) \<and>
   trial counter_rng NegZero ([[1]], 0, []) = Inr ([[- 1]], 2, [DivideByZero])"
  using trial_positive_zero trial_negative_zero by simp

section \<open>The recording statements of the step loop\<close>

lemma record_step_Inr:
  assumes "record_step np T (r, s) = Inr (r', s')"
  shows "\<exists>l' en. calculate_energy l' = Inr en \<and>
           heap s' = ((heap s)(lattice_ref r := l'))(next_addr s := l') \<and>
           next_addr s' = Suc (next_addr s) \<and>
           r' = \<lparr>lattice_ref = lattice_ref r, energy = energy r @ [en],
                 lattice_states = lattice_states r @ [next_addr s]\<rparr>"
  using assms
  by (auto simp: record_step_def metropolis_step_at_def calculate_energy_at_def np_copy_def
        new_array_def Let_def split: sum.splits prod.splits)

text \<open>
  One pass of the recording statements keeps the snapshots recorded so far
  intact: the sweep writes to the live lattice only, the copy goes to a fresh
  address, and the energy of every snapshot is the energy recorded with it.
\<close>

lemma record_step_inv:
  assumes "record_step np T (r, s) = Inr (r', s')" "run_inv base s r"
  shows "run_inv base s' r' \<and>
         length (lattice_states r') = Suc (length (lattice_states r)) \<and>
         (\<forall>b < base. heap s' b = heap s b) \<and> next_addr s \<le> next_addr s'"
proof -
  from record_step_Inr [OF assms(1)] obtain l' en where
    en: "calculate_energy l' = Inr en" and
    h: "heap s' = ((heap s)(lattice_ref r := l'))(next_addr s := l')" and
    n: "next_addr s' = Suc (next_addr s)" and
    r': "r' = \<lparr>lattice_ref = lattice_ref r, energy = energy r @ [en],
                lattice_states = lattice_states r @ [next_addr s]\<rparr>"
    by blast
  have a: "base \<le> lattice_ref r" "lattice_ref r < next_addr s"
    and len: "length (energy r) = length (lattice_states r)"
    and old: "\<And>k. k < length (lattice_states r) \<Longrightarrow>
         lattice_ref r < lattice_states r ! k \<and> lattice_states r ! k < next_addr s \<and>
         calculate_energy (heap s (lattice_states r ! k)) = Inr (energy r ! k)"
    using assms(2) by (simp_all add: run_inv_def)
  have snaps: "lattice_ref r' < lattice_states r' ! k \<and> lattice_states r' ! k < next_addr s' \<and>
         calculate_energy (heap s' (lattice_states r' ! k)) = Inr (energy r' ! k)"
    if k: "k < length (lattice_states r')" for k
  proof (cases "k < length (lattice_states r)")
    case True
    from old [OF True] show ?thesis
      using True len by (simp add: r' h n nth_append)
  next
    case False
    then have "k = length (lattice_states r)" using k by (simp add: r')
    then show ?thesis using a len en by (simp add: r' h n nth_append)
  qed
  have "run_inv base s' r'"
    unfolding run_inv_def using snaps a len by (simp add: r' n)
  moreover have "\<forall>b < base. heap s' b = heap s b" using a by (simp add: h)
  ultimately show ?thesis by (simp add: r' n)
qed

section \<open>The step loop stops at its first step\<close>

lemma step_body_Inl: "step_body np T oi step (Inl e) = Inl e"
  by (simp add: step_body_def)

lemma fold_step_body_Inl: "fold (step_body np T oi) xs (Inl e) = Inl e"
  by (induction xs) (simp_all add: step_body_Inl)

lemma step_body_first: "\<exists>e. step_body np T oi 0 acc = Inl e"
  by (auto simp: step_body_def split: sum.splits)

lemma run_temperature_raises:
  assumes "1 \<le> steps"
  shows "\<exists>e. run_temperature np N steps oi ratio T s = Inl e"
proof (cases "initialize_lattice_at np N ratio True s")
  case (Inl e)
  then show ?thesis by (simp add: run_temperature_def)
next
  case (Inr p)
  obtain a s1 where p: "p = (a, s1)" by (cases p)
  have u: "[0..<nat steps] = 0 # [Suc 0..<nat steps]"
    using assms by (simp add: upt_conv_Cons)
  obtain e where
    "step_body np T oi 0 (Inr (\<lparr>lattice_ref = a, energy = [], lattice_states = []\<rparr>, s1)) = Inl e"
    using step_body_first by blast
  then show ?thesis using Inr p by (simp add: run_temperature_def u fold_step_body_Inl)
qed

lemma temperature_body_Inl:
  "temperature_body np N steps oi ratio T (Inl e) = Inl e"
  by (simp add: temperature_body_def)

lemma fold_temperature_body_Inl:
  "fold (temperature_body np N steps oi ratio) Ts (Inl e) = Inl e"
  by (induction Ts) (simp_all add: temperature_body_Inl)

text \<open>
  With at least one temperature and at least one step the orchestrator raises,
  whatever the other arguments are.
\<close>

lemma simulate_raises:
  assumes "temperatures \<noteq> []" "1 \<le> steps"
  shows "\<exists>e. simulate_phase_separation np N temperatures steps oi ratio s = Inl e"
proof -
  obtain T Ts where t: "temperatures = T # Ts" using assms(1) by (cases temperatures) auto
  obtain e where "run_temperature np N steps oi ratio T s = Inl e"
    using run_temperature_raises [OF assms(2)] by blast
  then show ?thesis
    by (simp add: simulate_phase_separation_def t temperature_body_def fold_temperature_body_Inl)
qed

lemma lessThan_2: "{..<(2::nat)} = {0, 1}"
  by auto

lemma energy_2x2_down: "calculate_energy [[- 1, - 1], [- 1, - 1]] = Inr (- 8)"
proof -
  have sq: "square_lattice 2 [[- 1, - 1], [- 1, - 1]]" by (simp add: square_lattice_def)
  show ?thesis
    unfolding calculate_energy_square [OF sq]
    by (simp add: lessThan_2 spec_neighbor_sum_def)
qed

lemma first_step_2x2:
  "step_body counter_rng (Finite 1) 1 0
     (Inr (\<lparr>lattice_ref = 0, energy = [], lattice_states = []\<rparr>,
           \<lparr>heap = (\<lambda>_. [])(0 := [[- 1, - 1], [1, 1]]), next_addr = Suc 0, gen = Suc 0,
             warnings = []\<rparr>)) = Inl NameError"
  by (simp add: step_body_def record_step_def metropolis_step_at_def calculate_energy_at_def
        np_copy_def new_array_def Let_def sweep1_2x2 energy_2x2_down)

text \<open>
  Claim C7. The claim holds of the recording statements (lines 100 to 102):
  each pass keeps every snapshot an independent copy whose energy is the one
  recorded with it. But no run gets past its first step: the statement that
  follows them calls \<open>clear_output\<close>, a name the source never binds, at step 0.
  With N = 2, the temperature 1.0, two steps, an interval of 1 and the ratio
  0.5 the orchestrator raises NameError and returns no trajectory.
\<close>

theorem first_step_raises_name_error:
  "simulate_phase_separation counter_rng 2 [Finite 1] 2 1 (Finite (1 / 2)) empty_world =
   Inl NameError"
proof -
  have u: "[0..<nat 2] = [0, 1]" by (simp add: upt_rec)
  have i: "initialize_lattice_at counter_rng 2 (Finite (1 / 2)) True empty_world =
      Inr (0, \<lparr>heap = (\<lambda>_. [])(0 := [[- 1, - 1], [1, 1]]), next_addr = Suc 0, gen = Suc 0,
                 warnings = []\<rparr>)"
    by (simp add: initialize_lattice_at_def new_array_def empty_world_def init_2x2)
  have "run_temperature counter_rng 2 2 1 (Finite (1 / 2)) (Finite 1) empty_world = Inl NameError"
    unfolding run_temperature_def u i
    by (simp add: first_step_2x2 step_body_Inl)
  then show ?thesis
    by (simp add: simulate_phase_separation_def temperature_body_def)
qed

section \<open>The energy evaluator only reads\<close>

text \<open>
  Claim C10. Evaluating the energy of the array at an address returns the store
  it was given, unchanged: no cell of any lattice is written and the generator
  is not advanced. The value depends on the contents of that array alone: the
  same contents at any address of any store give the same energy.
\<close>

theorem calculate_energy_read_only:
  assumes "calculate_energy_at a s = Inr (e, s')" "heap t b = heap s a"
  shows "s' = s \<and> calculate_energy_at b t = Inr (e, t)"
  using assms by (auto simp: calculate_energy_at_def split: sum.splits)

theorem calculate_energy_read_only_witness:
  "calculate_energy_at 0 (snd (new_array [[- 1, - 1], [- 1, - 1]] empty_world)) =
     Inr (- 8, snd (new_array [[- 1, - 1], [- 1, - 1]] empty_world)) \<and>
   heap (snd (np_copy 0 (snd (new_array [[- 1, - 1], [- 1, - 1]] empty_world)))) 1 =
     heap (snd (new_array [[- 1, - 1], [- 1, - 1]] empty_world)) 0 \<and>
   calculate_energy_at 1 (snd (np_copy 0 (snd (new_array [[- 1, - 1], [- 1, - 1]] empty_world)))) =
     Inr (- 8, snd (np_copy 0 (snd (new_array [[- 1, - 1], [- 1, - 1]] empty_world))))"
proof -
  let ?s = "snd (new_array [[- 1, - 1], [- 1, - 1]] empty_world)"
  let ?t = "snd (np_copy 0 ?s)"
  have h: "heap ?s 0 = [[- 1, - 1], [- 1, - 1]]"
    by (simp add: new_array_def empty_world_def)
  have a: "calculate_energy_at 0 ?s = Inr (- 8, ?s)"
    by (simp add: calculate_energy_at_def h energy_2x2_down)
  have b: "heap ?t 1 = heap ?s 0"
    by (simp add: np_copy_def new_array_def empty_world_def)
  from calculate_energy_read_only [OF a b] a b show ?thesis by simp
qed

section \<open>Invalid configuration\<close>

lemma metropolis_step_total:
  assumes "square_lattice N l" "randint_in_range np"
  shows "\<exists>s'. metropolis_step np T (l, g, w) = Inr s'"
proof (cases "N = 0")
  case True
  then have "l = []" using assms(1) by (simp add: square_lattice_def)
  then show ?thesis by (simp add: metropolis_step_def)
next
  case False
  then have "0 < N" by simp
  from metropolis_step_refines [OF this assms, of T g w] show ?thesis by blast
qed

lemma run_temperature_no_steps:
  assumes "steps \<le> 0"
  shows "run_temperature np N steps output_interval ratio T s =
           (case initialize_lattice_at np N ratio True s of
              Inl e \<Rightarrow> Inl e
            | Inr (a, s1) \<Rightarrow> Inr (\<lparr>lattice_ref = a, energy = [], lattice_states = []\<rparr>, s1))"
proof -
  have "[0..<nat steps] = []" using assms by simp
  then show ?thesis by (simp add: run_temperature_def split: sum.splits prod.splits)
qed

text \<open>
  Claim C6, amended. No operation of the source checks its configuration on
  entry. \<open>metropolis_step\<close> on an N by N lattice returns normally at every
  temperature, negative ones included. \<open>initialize_lattice\<close> in random mode
  returns a grid for every size \<open>M\<close> that is not negative, 0 included, and
  every ratio for which \<open>int(M * M * ratio)\<close> is computed and lies between 0
  and \<open>M * M\<close>, whether the ratio is in [0, 1] or not (the lists must fit in
  memory). With a step count of 0 or less the run of a temperature is the
  initialization alone, with empty energy and snapshot lists.
\<close>

theorem no_entry_validation:
  assumes "square_lattice N l" "randint_in_range np" "shuffle_permutes np" "steps \<le> 0"
    and "0 \<le> M" "py_mul np (M * M) ratio = Inr x" "py_int x = Inr b" "0 \<le> b" "b \<le> M * M"
    and "M * M \<le> list_capacity np" "M * M < 2 ^ 63"
  shows "(\<exists>s'. metropolis_step np T (l, g, w) = Inr s') \<and>
         (\<exists>la g'. initialize_lattice np M ratio True g = Inr (la, g')) \<and>
         run_temperature np K steps output_interval r T' s =
           (case initialize_lattice_at np K r True s of
              Inl e \<Rightarrow> Inl e
            | Inr (a, s1) \<Rightarrow> Inr (\<lparr>lattice_ref = a, energy = [], lattice_states = []\<rparr>, s1))"
proof -
  from initialize_random [OF assms(5) assms(3) assms(6-11), of g]
  have "\<exists>la g'. initialize_lattice np M ratio True g = Inr (la, g')" by blast
  with metropolis_step_total [OF assms(1,2), of T g w] run_temperature_no_steps [OF assms(4)]
  show ?thesis by blast
qed

lemma exp_8: "1 < exp (8 :: real) * 2"
proof -
  have "1 \<le> exp (8 :: real)" by simp
  then show ?thesis by linarith
qed

lemma sweep_negative_temperature:
  "metropolis_step counter_rng (Finite (- 1)) ([[1]], 0, []) = Inr ([[- 1]], 2, [])"
proof -
  have t: "spec_trial counter_rng (Finite (- 1)) 1 ([[1]], 0) = ([[- 1]], 2)"
    by (simp add: spec_trial_def spec_delta_E_def spec_neighbor_sum_def spec_negate_def
          spec_exp_quotient_def np_divide_def np_exp_def counter_rng_def Let_def exp_8)
  obtain w' where
    m: "metropolis_step counter_rng (Finite (- 1)) ([[1]], 0, []) = Inr ([[- 1]], 2, w')"
    using metropolis_step_refines [where T = "Finite (- 1)" and g = 0 and w = "[]",
        OF _ square_1 [of 1] counter_rng_randint] t
    by auto
  from counter_sweep_quiet [OF _ _ m] have "w' = []" by simp
  with m show ?thesis by simp
qed

lemma ceiling_minus_half: "\<lceil>- (1 / 2 :: real)\<rceil> = 0"
  by (rule ceiling_unique) simp_all

lemma init_empty: "initialize_lattice counter_rng 0 (Finite (1 / 2)) True 0 = Inr ([], 1)"
  by (simp add: initialize_lattice_def py_int_def py_spins_def py_repeat_def reshape_def
        counter_rng_def)

lemma init_negative_ratio:
  "initialize_lattice counter_rng 1 (Finite (- 1 / 2)) True 0 = Inr ([[- 1]], 1)"
  by (simp add: initialize_lattice_def py_int_def py_spins_def py_repeat_def reshape_def
        counter_rng_def Let_def ceiling_minus_half)

lemma init_at_1x1:
  "initialize_lattice_at counter_rng 1 (Finite (1 / 2)) True empty_world =
     Inr (0, \<lparr>heap = (\<lambda>_. [])(0 := [[- 1]]), next_addr = 1, gen = 1, warnings = []\<rparr>)"
  by (simp add: initialize_lattice_at_def new_array_def empty_world_def initialize_lattice_def
        py_int_def py_spins_def py_repeat_def reshape_def counter_rng_def)

lemma run_no_steps:
  "run_temperature counter_rng 1 0 1 (Finite (1 / 2)) (Finite 1) empty_world =
   Inr (\<lparr>lattice_ref = 0, energy = [], lattice_states = []\<rparr>,
        \<lparr>heap = (\<lambda>_. [])(0 := [[- 1]]), next_addr = 1, gen = 1, warnings = []\<rparr>)"
  by (simp add: run_temperature_def init_at_1x1)

text \<open>
  Claim C6 as stated says that invalid configuration is rejected on entry. A
  sweep at temperature -1 returns a lattice, N = 0 gives the empty grid, the
  ratio -1/2 gives a grid, and a step count of 0 gives a run.
\<close>

theorem fail_fast_counterexample:
  "metropolis_step counter_rng (Finite (- 1)) ([[1]], 0, []) = Inr ([[- 1]], 2, []) \<and>
   initialize_lattice counter_rng 0 (Finite (1 / 2)) True 0 = Inr ([], 1) \<and>
   initialize_lattice counter_rng 1 (Finite (- 1 / 2)) True 0 = Inr ([[- 1]], 1) \<and>
   run_temperature counter_rng 1 0 1 (Finite (1 / 2)) (Finite 1) empty_world =
     Inr (\<lparr>lattice_ref = 0, energy = [], lattice_states = []\<rparr>,
          \<lparr>heap = (\<lambda>_. [])(0 := [[- 1]]), next_addr = 1, gen = 1, warnings = []\<rparr>)"
  using sweep_negative_temperature init_empty init_negative_ratio run_no_steps by blast

theorem no_entry_validation_witness:
  "square_lattice 1 [[1]] \<and> randint_in_range counter_rng \<and> shuffle_permutes counter_rng \<and>
   (0::int) \<le> 0 \<and> (0::int) \<le> 1 \<and>
   py_mul counter_rng (1 * 1) (Finite (- 1 / 2)) = Inr (Finite (- 1 / 2)) \<and>
   py_int (Finite (- 1 / 2)) = Inr 0 \<and> (0::int) \<le> 1 * 1 \<and>
   1 * 1 \<le> list_capacity counter_rng \<and> (1 * 1 :: int) < 2 ^ 63 \<and>
   (\<exists>s'. metropolis_step counter_rng (Finite (- 1)) ([[1]], 0, []) = Inr s') \<and>
   (\<exists>la g'. initialize_lattice counter_rng 1 (Finite (- 1 / 2)) True 0 = Inr (la, g')) \<and>
   run_temperature counter_rng 1 0 1 (Finite (1 / 2)) (Finite (- 1)) empty_world =
     Inr (\<lparr>lattice_ref = 0, energy = [], lattice_states = []\<rparr>,
          \<lparr>heap = (\<lambda>_. [])(0 := [[- 1]]), next_addr = 1, gen = 1, warnings = []\<rparr>)"
proof -
  have z: "(0::int) \<le> 0" "(0::int) \<le> 1" by simp_all
  have m: "py_mul counter_rng (1 * 1) (Finite (- 1 / 2)) = Inr (Finite (- 1 / 2))"
    by (simp add: counter_rng_def)
  have i: "py_int (Finite (- 1 / 2)) = Inr 0"
    by (simp add: py_int_def ceiling_minus_half)
  have b: "(0::int) \<le> 0" "(0::int) \<le> 1 * 1" by simp_all
  have c: "1 * 1 \<le> list_capacity counter_rng" "(1 * 1 :: int) < 2 ^ 63"
    by (simp_all add: counter_rng_def)
  from no_entry_validation [where T = "Finite (- 1)" and g = 0 and w = "[]" and K = 1 and
      output_interval = 1 and r = "Finite (1 / 2)" and T' = "Finite (- 1)" and s = empty_world,
      OF square_1 [of 1] counter_rng_randint counter_rng_shuffle z(1) z(2) m i b c]
    square_1 [of 1] counter_rng_randint counter_rng_shuffle m i c
  show ?thesis by (simp add: init_at_1x1)
qed

end
